theory Spec2Isabelle
  imports Complex_Main "HOL-Library.AList"
begin

section \<open>Data model (interfaces of core/types.ts, Achievement, GameStatistics)\<close>

text \<open>
  JavaScript numbers are IEEE doubles, modelled by \<open>real\<close>: the fields of the
  interfaces (amounts, costs, levels, rates, multipliers, progress) hold the real value of
  the double stored there. Sums, differences and products are taken exactly, except in
  \<open>calculateCost\<close>, where \<open>Math.ceil\<close> turns a rounding error in the last place into a
  difference of 1: there the product is rounded as the machine rounds it
  (\<open>round_double\<close> below) and \<open>Math.pow\<close>, which the language leaves to the
  implementation, is a parameter. Timestamps (milliseconds) are \<open>int\<close>; the click
  counter starts at 0 and is only incremented, so it is a \<open>nat\<close>. \<open>NaN\<close>, the
  infinities, overflow and subnormal numbers are outside this model.

  Optional fields (\<open>scalable?\<close>, \<open>scaleFactor?\<close>) are options. Fields that only carry
  presentation data (colour, icon, formatter, description, metadata) are left out: no
  operation modelled here reads them. The field \<open>id\<close> of each interface has a prefix
  here (\<open>c_id\<close>, \<open>u_id\<close>, \<open>p_id\<close>, \<open>a_id\<close>), as have \<open>name\<close> and the fields of
  \<open>GameState\<close> that share a name with a field of the engine.

  Objects are values here. The managers store copies (\<open>{ ...currency }\<close>) except
  \<open>addAchievement\<close>, which stores the caller's object; what the caller does with that
  object afterwards is not modelled.
\<close>

record Currency =
  c_id :: string
  c_name :: string
  amount :: real
  symbol :: string

record Upgrade =
  u_id :: string
  u_name :: string
  cost :: real
  currencyId :: string
  level :: real
  purchased :: bool
  effect :: real
  scalable :: "bool option"
  scaleFactor :: "real option"

record Paradigm =
  p_id :: string
  p_name :: string
  active :: bool
  productionMultiplier :: real

record Achievement =
  a_id :: string
  a_name :: string
  unlocked :: bool
  progress :: real
  target :: real

record GameStatistics =
  st_totalClicks :: nat
  totalGoldEarned :: real
  totalUpgradesPurchased :: nat
  totalTimePlayed :: int
  highestGold :: real
  paradigmChanges :: nat
  prestigeCount :: nat
  fastestClick :: nat
  longestSession :: int

text \<open>
  The persisted snapshot. A JavaScript \<open>Record<string, T>\<close> is an association list of
  the own properties of the object, in the order in which the keys were written
  (\<open>Object.entries\<close> lists keys that look like array indices before the others; the
  loops over the entries store one value per key, so the stored values do not depend on
  that order). The custom bag is opaque to the state manager;
  the engine writes and reads the single key \<open>totalClicks\<close> in it, so the bag is
  modelled by the value under that key.
\<close>

record GameState =
  timestamp :: int
  gs_currencies :: "(string \<times> real) list"
  gs_upgrades :: "(string \<times> real) list"
  gs_currentParadigm :: string
  gs_totalClicks :: nat
  gs_achievements :: "(string \<times> bool \<times> real) list option"
  gs_statistics :: "GameStatistics option"
  custom :: "nat option"

section \<open>Event bus (class EventBus, constants GameEvents)\<close>

text \<open>
  One constructor per event type that the modelled operations emit, carrying the fields
  of the payload in the order of the source. The bus is modelled by the sequence of
  \<open>emit\<close> calls, oldest first. Observers are not modelled: the operations below are
  those of an engine whose observers do not call back into the managers.
\<close>

datatype event =
    GAME_INITIALIZED
  | CURRENCY_ADDED string
  | CURRENCY_CHANGED string real real real
  | UPGRADE_AVAILABLE string
  | UPGRADE_PURCHASED string real real
  | UPGRADE_LEVELED string real real
  | CLICK string real real real real
  | CLICK_MULTIPLIER_CHANGED string real
  | PARADIGM_CHANGED string string real
  | PRODUCTION_TICK real
  | PRODUCTION_CHANGED string real
  | STATE_SAVED string int
  | STATE_LOADED string int
  | ACHIEVEMENT_PROGRESS string real real
  | ACHIEVEMENT_UNLOCKED string Achievement

datatype error =
    CurrencyExists string
  | CurrencyMissing string
  | UpgradeExists string
  | UpgradeMissing string
  | ParadigmExists string
  | ParadigmMissing string

section \<open>Engine state\<close>

text \<open>
  The private fields of the managers that \<open>ClickerGameEngine\<close> owns, in one record.
  A JavaScript \<open>Map\<close> is an association list in insertion order: \<open>map_of\<close> is
  \<open>Map.get\<close>, \<open>AList.update\<close> is \<open>Map.set\<close> (an existing key keeps its place, a
  new key goes to the end). The keys of a \<open>Map\<close> are unique, which is the predicate
  \<open>distinct (map fst m)\<close> on the list.

  An operation that can throw returns the exception or the value, paired with the state
  at that moment: what was mutated before a \<open>throw\<close> stays mutated.
\<close>

record engine =
  events :: "event list"
  currencies :: "(string \<times> Currency) list"
  upgrades :: "(string \<times> Upgrade) list"
  paradigms :: "(string \<times> Paradigm) list"
  currentParadigm :: "string option"
  productionRates :: "(string \<times> real) list"
  clickMultipliers :: "(string \<times> real) list"
  achievements :: "(string \<times> Achievement) list"
  stats :: GameStatistics
  sessionStartTime :: int
  clickTimeWindow :: "int list"
  storage :: "(string \<times> GameState) list"
  totalClicks :: nat

definition emit :: "event \<Rightarrow> engine \<Rightarrow> engine" where
  "emit e s = s\<lparr>events := events s @ [e]\<rparr>"

section \<open>Double-precision rounding\<close>

text \<open>
  The value of an IEEE 754 binary64 operation is the exact result rounded to the nearest
  number with a 53-bit significand, ties going to the even significand. For \<open>x\<close>
  between \<open>2^e\<close> and \<open>2^(e+1)\<close> the doubles are the multiples of \<open>2^(e-52)\<close>.
\<close>

definition round_half_even :: "real \<Rightarrow> int" where
  "round_half_even q =
     (let f = \<lfloor>q\<rfloor>; r = q - of_int f
      in if r < 1 / 2 then f
         else if r > 1 / 2 then f + 1
         else if even f then f else f + 1)"

definition round_double :: "real \<Rightarrow> real" where
  "round_double x =
     (if x = 0 then 0
      else (let e = \<lfloor>log 2 \<bar>x\<bar>\<rfloor>; u = 2 powi (e - 52)
            in sgn x * of_int (round_half_even (\<bar>x\<bar> / u)) * u))"

text \<open>The doubles that the literals \<open>1.15\<close> and \<open>1.1\<close> of the source denote.\<close>

definition double_1_15 :: real where
  "double_1_15 = round_double 1.15"

definition double_1_1 :: real where
  "double_1_1 = round_double 1.1"

text \<open>
  A \<open>Math.pow\<close> that returns the exact power rounded to the nearest double, for a
  positive base: one function that the parameter \<open>pw\<close> of \<open>calculateCost\<close> can be.
\<close>

definition pow_rounded :: "real \<Rightarrow> real \<Rightarrow> real" where
  "pow_rounded x y = round_double (x powr y)"

section \<open>CurrencyManager\<close>

text \<open>
  \<open>set_amount\<close> is \<open>CurrencyManager.set\<close> and \<open>currency_clear\<close> is
  \<open>CurrencyManager.clear\<close>; the other operations keep their names.
\<close>

definition addCurrency :: "Currency \<Rightarrow> engine \<Rightarrow> (error + unit) \<times> engine" where
  "addCurrency currency s =
     (if map_of (currencies s) (c_id currency) \<noteq> None
      then (Inl (CurrencyExists (c_id currency)), s)
      else (Inr (),
            emit (CURRENCY_ADDED (c_id currency))
              (s\<lparr>currencies := AList.update (c_id currency) currency (currencies s)\<rparr>)))"

definition get :: "string \<Rightarrow> engine \<Rightarrow> real" where
  "get cid s = (case map_of (currencies s) cid of None \<Rightarrow> 0 | Some currency \<Rightarrow> amount currency)"

definition set_amount :: "string \<Rightarrow> real \<Rightarrow> engine \<Rightarrow> (error + unit) \<times> engine" where
  "set_amount cid amt s =
     (case map_of (currencies s) cid of
        None \<Rightarrow> (Inl (CurrencyMissing cid), s)
      | Some currency \<Rightarrow>
          (let oldAmount = amount currency;
               currency' = currency\<lparr>amount := max 0 amt\<rparr>
           in (Inr (),
               emit (CURRENCY_CHANGED cid oldAmount (amount currency') (amount currency' - oldAmount))
                 (s\<lparr>currencies := AList.update cid currency' (currencies s)\<rparr>))))"

definition add :: "string \<Rightarrow> real \<Rightarrow> engine \<Rightarrow> (error + real) \<times> engine" where
  "add cid amt s =
     (case map_of (currencies s) cid of
        None \<Rightarrow> (Inl (CurrencyMissing cid), s)
      | Some currency \<Rightarrow>
          (let oldAmount = amount currency;
               currency' = currency\<lparr>amount := amount currency + amt\<rparr>
           in (Inr (amount currency'),
               emit (CURRENCY_CHANGED cid oldAmount (amount currency') amt)
                 (s\<lparr>currencies := AList.update cid currency' (currencies s)\<rparr>))))"

definition subtract :: "string \<Rightarrow> real \<Rightarrow> engine \<Rightarrow> (error + real) \<times> engine" where
  "subtract cid amt s =
     (case map_of (currencies s) cid of
        None \<Rightarrow> (Inl (CurrencyMissing cid), s)
      | Some currency \<Rightarrow>
          (let oldAmount = amount currency;
               currency' = currency\<lparr>amount := max 0 (amount currency - amt)\<rparr>
           in (Inr (amount currency'),
               emit (CURRENCY_CHANGED cid oldAmount (amount currency') (- amt))
                 (s\<lparr>currencies := AList.update cid currency' (currencies s)\<rparr>))))"

definition has :: "string \<Rightarrow> real \<Rightarrow> engine \<Rightarrow> bool" where
  "has cid amt s = (get cid s \<ge> amt)"

text \<open>
  \<open>getAllAsRecord\<close>: \<open>forEach\<close> over the map, writing \<open>record[id] = amount\<close> on an
  object literal. For the id \<open>__proto__\<close> that assignment creates no property: it calls
  the setter that the record inherits from \<open>Object.prototype\<close>, which ignores a number
  (and, given an object, makes it the prototype of the record). \<open>Object.entries\<close>
  lists own properties only, so the record never has an entry under \<open>__proto__\<close>. The
  same holds for \<open>getAsRecord\<close> and for \<open>serialize\<close> of the achievement manager.
\<close>

definition getAllAsRecord :: "engine \<Rightarrow> (string \<times> real) list" where
  "getAllAsRecord s =
     fold (\<lambda>(cid, currency) record.
             if cid = ''__proto__'' then record
             else AList.update cid (amount currency) record) (currencies s) []"

definition currency_clear :: "engine \<Rightarrow> engine" where
  "currency_clear s = s\<lparr>currencies := []\<rparr>"

section \<open>UpgradeManager\<close>

definition addUpgrade :: "Upgrade \<Rightarrow> engine \<Rightarrow> (error + unit) \<times> engine" where
  "addUpgrade upgrade s =
     (if map_of (upgrades s) (u_id upgrade) \<noteq> None
      then (Inl (UpgradeExists (u_id upgrade)), s)
      else (Inr (),
            emit (UPGRADE_AVAILABLE (u_id upgrade))
              (s\<lparr>upgrades := AList.update (u_id upgrade) upgrade (upgrades s)\<rparr>)))"

text \<open>
  \<open>!upgrade.scalable\<close> holds for a missing flag as for \<open>false\<close>; \<open>??\<close> replaces only a
  missing scale factor, by the double that the literal \<open>1.15\<close> denotes (\<open>double_1_15\<close>). The product is
  a double multiplication. \<open>Math.pow\<close> is the parameter \<open>pw\<close>: the language
  specification fixes its value at exponent 0 and leaves the rest
  implementation-approximated. \<open>Math.ceil\<close> of a double is its exact ceiling.
\<close>

definition calculateCost :: "(real \<Rightarrow> real \<Rightarrow> real) \<Rightarrow> Upgrade \<Rightarrow> real" where
  "calculateCost pw upgrade =
     (if scalable upgrade \<noteq> Some True then cost upgrade
      else (let sf = (case scaleFactor upgrade of None \<Rightarrow> double_1_15 | Some f \<Rightarrow> f)
            in real_of_int \<lceil>round_double (cost upgrade * pw sf (level upgrade))\<rceil>))"

definition purchase :: "(real \<Rightarrow> real \<Rightarrow> real) \<Rightarrow> string \<Rightarrow> engine \<Rightarrow> (error + bool) \<times> engine" where
  "purchase pw upgradeId s =
     (case map_of (upgrades s) upgradeId of
        None \<Rightarrow> (Inl (UpgradeMissing upgradeId), s)
      | Some upgrade \<Rightarrow>
          (let c = calculateCost pw upgrade
           in if \<not> has (currencyId upgrade) c s then (Inr False, s)
              else (case subtract (currencyId upgrade) c s of
                      (Inl e, s1) \<Rightarrow> (Inl e, s1)
                    | (Inr _, s1) \<Rightarrow>
                        (let upgrade' = upgrade\<lparr>level := level upgrade + 1, purchased := True\<rparr>;
                             s2 = s1\<lparr>upgrades := AList.update upgradeId upgrade' (upgrades s1)\<rparr>;
                             s3 = emit (UPGRADE_PURCHASED upgradeId (level upgrade') c) s2;
                             s4 = emit (UPGRADE_LEVELED upgradeId (level upgrade') (effect upgrade')) s3
                         in (Inr True, s4)))))"

definition setLevel :: "string \<Rightarrow> real \<Rightarrow> engine \<Rightarrow> (error + unit) \<times> engine" where
  "setLevel upgradeId lvl s =
     (case map_of (upgrades s) upgradeId of
        None \<Rightarrow> (Inl (UpgradeMissing upgradeId), s)
      | Some upgrade \<Rightarrow>
          (Inr (), s\<lparr>upgrades := AList.update upgradeId (upgrade\<lparr>level := max 0 lvl\<rparr>) (upgrades s)\<rparr>))"

definition upgrade_reset :: "engine \<Rightarrow> engine" where
  "upgrade_reset s =
     s\<lparr>upgrades := map (\<lambda>(uid, upgrade). (uid, upgrade\<lparr>level := 0, purchased := False\<rparr>)) (upgrades s)\<rparr>"

definition getAsRecord :: "engine \<Rightarrow> (string \<times> real) list" where
  "getAsRecord s =
     fold (\<lambda>(uid, upgrade) record.
             if uid = ''__proto__'' then record
             else AList.update uid (level upgrade) record) (upgrades s) []"

section \<open>ParadigmManager\<close>

text \<open>
  \<open>currentParadigm\<close> is a \<open>string | null\<close>. The source tests it in two ways:
  \<open>=== null\<close> in \<open>addParadigm\<close>, and by truthiness (\<open>if (this.currentParadigm)\<close>,
  \<open>if (!this.currentParadigm)\<close>) in \<open>switchTo\<close> and \<open>getCurrent\<close>. A string is
  truthy when it is not empty.
\<close>

definition truthy :: "string option \<Rightarrow> bool" where
  "truthy v = (case v of None \<Rightarrow> False | Some str \<Rightarrow> str \<noteq> [])"

definition addParadigm :: "Paradigm \<Rightarrow> engine \<Rightarrow> (error + unit) \<times> engine" where
  "addParadigm paradigm s =
     (if map_of (paradigms s) (p_id paradigm) \<noteq> None
      then (Inl (ParadigmExists (p_id paradigm)), s)
      else (let s1 = (if active paradigm \<and> currentParadigm s = None
                      then s\<lparr>currentParadigm := Some (p_id paradigm)\<rparr> else s);
                paradigm' = (if active paradigm \<and> currentParadigm s = None then paradigm
                             else if active paradigm then paradigm\<lparr>active := False\<rparr>
                             else paradigm)
            in (Inr (), s1\<lparr>paradigms := AList.update (p_id paradigm) paradigm' (paradigms s1)\<rparr>)))"

text \<open>
  In \<open>switchTo\<close> the lookup \<open>this.paradigms.get(paradigmId)!\<close> comes after the
  \<open>has\<close> test and after a \<open>set\<close> that removes no key: its \<open>None\<close> branch below is
  never taken.
\<close>

definition switchTo :: "string \<Rightarrow> engine \<Rightarrow> (error + unit) \<times> engine" where
  "switchTo paradigmId s =
     (if map_of (paradigms s) paradigmId = None
      then (Inl (ParadigmMissing paradigmId), s)
      else (let s1 = (if truthy (currentParadigm s)
                      then (case map_of (paradigms s) (the (currentParadigm s)) of
                              None \<Rightarrow> s
                            | Some current \<Rightarrow>
                                s\<lparr>paradigms := AList.update (the (currentParadigm s))
                                                  (current\<lparr>active := False\<rparr>) (paradigms s)\<rparr>)
                      else s)
            in (case map_of (paradigms s1) paradigmId of
                  None \<Rightarrow> (Inl (ParadigmMissing paradigmId), s1)
                | Some newParadigm \<Rightarrow>
                    (let newParadigm' = newParadigm\<lparr>active := True\<rparr>;
                         s2 = s1\<lparr>paradigms := AList.update paradigmId newParadigm' (paradigms s1),
                                currentParadigm := Some paradigmId\<rparr>
                     in (Inr (),
                         emit (PARADIGM_CHANGED paradigmId (p_name newParadigm')
                                 (productionMultiplier newParadigm')) s2)))))"

definition getCurrent :: "engine \<Rightarrow> Paradigm option" where
  "getCurrent s =
     (if \<not> truthy (currentParadigm s) then None
      else map_of (paradigms s) (the (currentParadigm s)))"

definition getCurrentId :: "engine \<Rightarrow> string option" where
  "getCurrentId s = currentParadigm s"

definition getCurrentMultiplier :: "engine \<Rightarrow> real" where
  "getCurrentMultiplier s =
     (case getCurrent s of None \<Rightarrow> 1 | Some current \<Rightarrow> productionMultiplier current)"

definition isAvailable :: "string \<Rightarrow> engine \<Rightarrow> bool" where
  "isAvailable paradigmId s = (map_of (paradigms s) paradigmId \<noteq> None)"

section \<open>ProductionManager\<close>

text \<open>\<open>pm_click\<close> is \<open>ProductionManager.click\<close>; \<open>click\<close> is the engine's.\<close>

definition setProductionRate :: "string \<Rightarrow> real \<Rightarrow> engine \<Rightarrow> engine" where
  "setProductionRate cid rate s =
     emit (PRODUCTION_CHANGED cid rate)
       (s\<lparr>productionRates := AList.update cid rate (productionRates s)\<rparr>)"

definition getProductionRate :: "string \<Rightarrow> engine \<Rightarrow> real" where
  "getProductionRate cid s = (case map_of (productionRates s) cid of None \<Rightarrow> 0 | Some r \<Rightarrow> r)"

definition setClickMultiplier :: "string \<Rightarrow> real \<Rightarrow> engine \<Rightarrow> engine" where
  "setClickMultiplier cid multiplier s =
     emit (CLICK_MULTIPLIER_CHANGED cid multiplier)
       (s\<lparr>clickMultipliers := AList.update cid multiplier (clickMultipliers s)\<rparr>)"

definition getClickMultiplier :: "string \<Rightarrow> engine \<Rightarrow> real" where
  "getClickMultiplier cid s = (case map_of (clickMultipliers s) cid of None \<Rightarrow> 1 | Some m \<Rightarrow> m)"

text \<open>
  The body of \<open>productionRates.forEach\<close> in \<open>tick\<close>, over the entries in map order.
  \<open>CurrencyManager.add\<close> throws for an unregistered id; nothing catches it, so the
  loop stops there.
\<close>

fun tick_rates :: "(string \<times> real) list \<Rightarrow> real \<Rightarrow> real \<Rightarrow> engine \<Rightarrow> (error + unit) \<times> engine" where
  "tick_rates [] deltaSeconds paradigmMultiplier s = (Inr (), s)"
| "tick_rates ((cid, rate) # rest) deltaSeconds paradigmMultiplier s =
     (if rate > 0
      then (case add cid (rate * deltaSeconds * paradigmMultiplier) s of
              (Inl e, s') \<Rightarrow> (Inl e, s')
            | (Inr _, s') \<Rightarrow> tick_rates rest deltaSeconds paradigmMultiplier s')
      else tick_rates rest deltaSeconds paradigmMultiplier s)"

definition tick :: "real \<Rightarrow> engine \<Rightarrow> (error + unit) \<times> engine" where
  "tick deltaTimeMs s =
     (let deltaSeconds = deltaTimeMs / 1000;
          paradigmMultiplier = getCurrentMultiplier s
      in (case tick_rates (productionRates s) deltaSeconds paradigmMultiplier s of
            (Inl e, s') \<Rightarrow> (Inl e, s')
          | (Inr _, s') \<Rightarrow> (Inr (), emit (PRODUCTION_TICK deltaTimeMs) s')))"

definition pm_click :: "string \<Rightarrow> real \<Rightarrow> engine \<Rightarrow> (error + unit) \<times> engine" where
  "pm_click cid baseAmount s =
     (let clickMultiplier = getClickMultiplier cid s;
          paradigmMultiplier = getCurrentMultiplier s;
          finalAmount = baseAmount * clickMultiplier * paradigmMultiplier
      in (case add cid finalAmount s of
            (Inl e, s') \<Rightarrow> (Inl e, s')
          | (Inr _, s') \<Rightarrow>
              (Inr (), emit (CLICK cid baseAmount clickMultiplier paradigmMultiplier finalAmount) s')))"

section \<open>AchievementManager\<close>

definition addAchievement :: "Achievement \<Rightarrow> engine \<Rightarrow> engine" where
  "addAchievement achievement s =
     s\<lparr>achievements := AList.update (a_id achievement) achievement (achievements s)\<rparr>"

definition unlockAchievement :: "string \<Rightarrow> engine \<Rightarrow> engine" where
  "unlockAchievement achievementId s =
     (case map_of (achievements s) achievementId of
        None \<Rightarrow> s
      | Some achievement \<Rightarrow>
          if unlocked achievement then s
          else (let achievement' = achievement\<lparr>unlocked := True, progress := target achievement\<rparr>
                in emit (ACHIEVEMENT_UNLOCKED achievementId achievement')
                     (s\<lparr>achievements := AList.update achievementId achievement' (achievements s)\<rparr>)))"

definition updateProgress :: "string \<Rightarrow> real \<Rightarrow> engine \<Rightarrow> engine" where
  "updateProgress achievementId prog s =
     (case map_of (achievements s) achievementId of
        None \<Rightarrow> s
      | Some achievement \<Rightarrow>
          if unlocked achievement then s
          else (let s1 = s\<lparr>achievements :=
                             AList.update achievementId (achievement\<lparr>progress := prog\<rparr>) (achievements s)\<rparr>;
                    s2 = (if prog \<ge> target achievement then unlockAchievement achievementId s1 else s1)
                in emit (ACHIEVEMENT_PROGRESS achievementId prog (target achievement)) s2))"

definition serialize_achievements :: "engine \<Rightarrow> (string \<times> bool \<times> real) list" where
  "serialize_achievements s =
     fold (\<lambda>(aid, achievement) state.
             if aid = ''__proto__'' then state
             else AList.update aid (unlocked achievement, progress achievement) state)
       (achievements s) []"

fun deserialize_achievements :: "(string \<times> bool \<times> real) list \<Rightarrow> engine \<Rightarrow> engine" where
  "deserialize_achievements [] s = s"
| "deserialize_achievements ((aid, u, p) # rest) s =
     deserialize_achievements rest
       (case map_of (achievements s) aid of
          None \<Rightarrow> s
        | Some achievement \<Rightarrow>
            s\<lparr>achievements :=
                AList.update aid (achievement\<lparr>unlocked := u, progress := p\<rparr>) (achievements s)\<rparr>)"

section \<open>StatisticsManager\<close>

text \<open>
  \<open>Date.now()\<close> is a parameter \<open>now\<close> (milliseconds) of every operation that reads the
  clock; one operation reads one value.
\<close>

definition initial_stats :: GameStatistics where
  "initial_stats =
     \<lparr>st_totalClicks = 0, totalGoldEarned = 0, totalUpgradesPurchased = 0, totalTimePlayed = 0,
      highestGold = 0, paradigmChanges = 0, prestigeCount = 0, fastestClick = 0,
      longestSession = 0\<rparr>"

definition recordClick :: "int \<Rightarrow> engine \<Rightarrow> engine" where
  "recordClick now s =
     (let st1 = (stats s)\<lparr>st_totalClicks := st_totalClicks (stats s) + 1\<rparr>;
          window = filter (\<lambda>t. now - t < 1000) (clickTimeWindow s @ [now]);
          st2 = (if length window > fastestClick st1 then st1\<lparr>fastestClick := length window\<rparr>
                 else st1)
      in s\<lparr>stats := st2, clickTimeWindow := window\<rparr>)"

definition getCurrentSessionTime :: "int \<Rightarrow> engine \<Rightarrow> int" where
  "getCurrentSessionTime now s = (now - sessionStartTime s) div 1000"

definition updateTimePlayed :: "int \<Rightarrow> engine \<Rightarrow> engine" where
  "updateTimePlayed now s =
     (let sessionTime = getCurrentSessionTime now s;
          st1 = (stats s)\<lparr>totalTimePlayed := totalTimePlayed (stats s) + sessionTime\<rparr>;
          st2 = (if sessionTime > longestSession st1 then st1\<lparr>longestSession := sessionTime\<rparr>
                 else st1)
      in s\<lparr>stats := st2, sessionStartTime := now\<rparr>)"

definition serialize_statistics :: "int \<Rightarrow> engine \<Rightarrow> GameStatistics \<times> engine" where
  "serialize_statistics now s = (let s' = updateTimePlayed now s in (stats s', s'))"

definition deserialize_statistics :: "GameStatistics \<Rightarrow> int \<Rightarrow> engine \<Rightarrow> engine" where
  "deserialize_statistics st now s = s\<lparr>stats := st, sessionStartTime := now\<rparr>"

section \<open>StateManager and MemoryStorageAdapter\<close>

text \<open>
  The storage adapter is the in-memory one: a map from keys to snapshots; its \<open>save\<close>
  and \<open>load\<close> do not throw. The engine constructs the state manager with an
  achievement manager and a statistics manager, so both optional parts of the snapshot
  are written.
\<close>

definition snapshot :: "nat option \<Rightarrow> int \<Rightarrow> engine \<Rightarrow> GameState \<times> engine" where
  "snapshot customState now s =
     (let current = getCurrent s;
          (st, s') = serialize_statistics now s
      in (\<lparr>timestamp = now,
           gs_currencies = getAllAsRecord s,
           gs_upgrades = getAsRecord s,
           gs_currentParadigm = (case current of None \<Rightarrow> ''default'' | Some c \<Rightarrow> p_id c),
           gs_totalClicks = 0,
           gs_achievements = Some (serialize_achievements s),
           gs_statistics = Some st,
           custom = customState\<rparr>, s'))"

definition save :: "string \<Rightarrow> nat option \<Rightarrow> int \<Rightarrow> engine \<Rightarrow> engine" where
  "save key customState now s =
     (let (state, s1) = snapshot customState now s;
          s2 = s1\<lparr>storage := AList.update key state (storage s1)\<rparr>
      in emit (STATE_SAVED key (timestamp state)) s2)"

text \<open>
  The two \<open>Object.entries(...).forEach\<close> loops of \<open>load\<close>. \<open>set\<close> and
  \<open>setLevel\<close> throw for an id that is not registered; the \<open>try\<close> around the body of
  \<open>load\<close> catches it and \<open>load\<close> returns \<open>null\<close>, with the entries before it
  already restored.
\<close>

fun restore_currencies :: "(string \<times> real) list \<Rightarrow> engine \<Rightarrow> (error + unit) \<times> engine" where
  "restore_currencies [] s = (Inr (), s)"
| "restore_currencies ((cid, amt) # rest) s =
     (case set_amount cid amt s of
        (Inl e, s') \<Rightarrow> (Inl e, s')
      | (Inr _, s') \<Rightarrow> restore_currencies rest s')"

fun restore_upgrades :: "(string \<times> real) list \<Rightarrow> engine \<Rightarrow> (error + unit) \<times> engine" where
  "restore_upgrades [] s = (Inr (), s)"
| "restore_upgrades ((uid, lvl) # rest) s =
     (case setLevel uid lvl s of
        (Inl e, s') \<Rightarrow> (Inl e, s')
      | (Inr _, s') \<Rightarrow> restore_upgrades rest s')"

definition load :: "string \<Rightarrow> int \<Rightarrow> engine \<Rightarrow> GameState option \<times> engine" where
  "load key now s =
     (case map_of (storage s) key of
        None \<Rightarrow> (None, s)
      | Some state \<Rightarrow>
          (case restore_currencies (gs_currencies state) s of
             (Inl e, s1) \<Rightarrow> (None, s1)
           | (Inr _, s1) \<Rightarrow>
               (case restore_upgrades (gs_upgrades state) s1 of
                  (Inl e, s2) \<Rightarrow> (None, s2)
                | (Inr _, s2) \<Rightarrow>
                    (case (if gs_currentParadigm state \<noteq> [] \<and> isAvailable (gs_currentParadigm state) s2
                           then switchTo (gs_currentParadigm state) s2
                           else (Inr (), s2)) of
                       (Inl e, s3) \<Rightarrow> (None, s3)
                     | (Inr _, s3) \<Rightarrow>
                         (let s4 = (case gs_achievements state of
                                      None \<Rightarrow> s3
                                    | Some a \<Rightarrow> deserialize_achievements a s3);
                              s5 = (case gs_statistics state of
                                      None \<Rightarrow> s4
                                    | Some st \<Rightarrow> deserialize_statistics st now s4)
                          in (Some state, emit (STATE_LOADED key (timestamp state)) s5))))))"

section \<open>ClickerGameEngine\<close>

definition new_engine :: "int \<Rightarrow> engine" where
  "new_engine now =
     \<lparr>events = [GAME_INITIALIZED], currencies = [], upgrades = [], paradigms = [],
      currentParadigm = None, productionRates = [], clickMultipliers = [], achievements = [],
      stats = initial_stats, sessionStartTime = now, clickTimeWindow = [], storage = [],
      totalClicks = 0\<rparr>"

text \<open>\<open>click(currencyId, baseAmount?)\<close>: a missing base amount is the default 1.\<close>

definition click :: "string \<Rightarrow> real option \<Rightarrow> int \<Rightarrow> engine \<Rightarrow> (error + unit) \<times> engine" where
  "click cid baseAmount now s =
     (case pm_click cid (case baseAmount of None \<Rightarrow> 1 | Some b \<Rightarrow> b) s of
        (Inl e, s') \<Rightarrow> (Inl e, s')
      | (Inr _, s') \<Rightarrow> (Inr (), recordClick now (s'\<lparr>totalClicks := totalClicks s' + 1\<rparr>)))"

definition saveGame :: "string \<Rightarrow> int \<Rightarrow> engine \<Rightarrow> engine" where
  "saveGame key now s = save key (Some (totalClicks s)) now s"

text \<open>\<open>state.custom?.totalClicks\<close> is tested for truthiness: 0 and a missing bag fail it.\<close>

definition loadGame :: "string \<Rightarrow> int \<Rightarrow> engine \<Rightarrow> bool \<times> engine" where
  "loadGame key now s =
     (case load key now s of
        (None, s') \<Rightarrow> (False, s')
      | (Some state, s') \<Rightarrow>
          (True, (case custom state of
                    None \<Rightarrow> s'
                  | Some n \<Rightarrow> if n \<noteq> 0 then s'\<lparr>totalClicks := n\<rparr> else s')))"

definition getTotalClicks :: "engine \<Rightarrow> nat" where
  "getTotalClicks s = totalClicks s"

section \<open>Unique keys\<close>

text \<open>The keys of every map of the engine are unique, as the keys of a \<open>Map\<close> are.\<close>

definition unique_keys :: "engine \<Rightarrow> bool" where
  "unique_keys s =
     (distinct (map fst (currencies s)) \<and> distinct (map fst (upgrades s)) \<and>
      distinct (map fst (paradigms s)) \<and> distinct (map fst (productionRates s)) \<and>
      distinct (map fst (clickMultipliers s)) \<and> distinct (map fst (achievements s)) \<and>
      distinct (map fst (storage s)))"

text \<open>
  \<open>addParadigm\<close> stores a paradigm under its own id, and no operation changes the id of
  a stored paradigm.
\<close>

definition paradigms_keyed :: "engine \<Rightarrow> bool" where
  "paradigms_keyed s = (\<forall>(i, p)\<in>set (paradigms s). p_id p = i)"

section \<open>Sequences of paradigm calls\<close>

text \<open>
  A sequence of \<open>addParadigm\<close> and \<open>switchTo\<close> calls on the engine. A call that
  throws has changed nothing when it throws, and the caller goes on with the next call.
\<close>

datatype paradigm_call = Register Paradigm | SwitchTo string

fun paradigm_calls :: "paradigm_call list \<Rightarrow> engine \<Rightarrow> engine" where
  "paradigm_calls [] s = s"
| "paradigm_calls (Register p # calls) s = paradigm_calls calls (snd (addParadigm p s))"
| "paradigm_calls (SwitchTo pid # calls) s = paradigm_calls calls (snd (switchTo pid s))"

fun registers_nonempty_id :: "paradigm_call \<Rightarrow> bool" where
  "registers_nonempty_id (Register p) = (p_id p \<noteq> [])"
| "registers_nonempty_id (SwitchTo pid) = True"

text \<open>
  The state of the paradigm manager is consistent when no id is empty, the current id is
  registered, and a paradigm is active exactly when its id is the current one.
\<close>

definition paradigms_consistent :: "engine \<Rightarrow> bool" where
  "paradigms_consistent s =
     ((\<forall>i p. map_of (paradigms s) i = Some p \<longrightarrow>
         i \<noteq> [] \<and> (active p \<longleftrightarrow> currentParadigm s = Some i)) \<and>
      (\<forall>c. currentParadigm s = Some c \<longrightarrow> map_of (paradigms s) c \<noteq> None))"

section \<open>Example data\<close>

text \<open>
  The currency and the upgrade of the examples in the source's documentation, and small
  engines built from them with the engine's own operations. They are the concrete inputs
  at which the theorems below are instantiated.
\<close>

definition gold :: Currency where
  "gold = \<lparr>c_id = ''gold'', c_name = ''Gold'', amount = 0, symbol = ''G''\<rparr>"

definition click_power :: Upgrade where
  "click_power =
     \<lparr>u_id = ''click-power'', u_name = ''Click Power'', cost = 100, currencyId = ''gold'',
      level = 0, purchased = False, effect = double_1_1, scalable = Some True,
      scaleFactor = Some double_1_15\<rparr>"

definition first_click :: Achievement where
  "first_click =
     \<lparr>a_id = ''first-click'', a_name = ''First Click'', unlocked = False, progress = 0,
      target = 3\<rparr>"

definition engine_gold :: engine where
  "engine_gold = snd (addCurrency gold (new_engine 0))"

definition shop :: "real \<Rightarrow> engine" where
  "shop g = snd (addUpgrade click_power (snd (addCurrency (gold\<lparr>amount := g\<rparr>) (new_engine 0))))"

definition engine_ach :: engine where
  "engine_ach = addAchievement first_click (new_engine 0)"

text \<open>
  Two paradigms: one registered as active under the empty id, one inactive; and an engine
  in which \<open>gold\<close> has been clicked three times.
\<close>

definition base_paradigm :: Paradigm where
  "base_paradigm = \<lparr>p_id = '''', p_name = ''Base'', active = True, productionMultiplier = 2\<rparr>"

definition prestige :: Paradigm where
  "prestige =
     \<lparr>p_id = ''prestige'', p_name = ''Prestige Mode'', active = False,
      productionMultiplier = 1.5\<rparr>"

definition engine_paradigms :: engine where
  "engine_paradigms = snd (addParadigm prestige (snd (addParadigm base_paradigm (new_engine 0))))"

definition engine_clicked :: engine where
  "engine_clicked =
     snd (click ''gold'' None 30 (snd (click ''gold'' None 20 (snd (click ''gold'' None 10 engine_gold)))))"

text \<open>
  An active paradigm with multiplier 2, an engine producing 10 \<open>gold\<close> per second under
  it, and an engine with a production rate for \<open>gems\<close>, which is not registered.
\<close>

definition double_paradigm :: Paradigm where
  "double_paradigm =
     \<lparr>p_id = ''double'', p_name = ''Double'', active = True, productionMultiplier = 2\<rparr>"



text \<open>
  An engine with a currency, an upgrade, an active paradigm and an achievement; the same
  engine after a save; and after the save a purchase, a switch to a newly registered
  paradigm and an unlocked achievement. Last, an engine whose upgrade was registered at
  level \<open>-1\<close>.
\<close>

definition engine_full :: engine where
  "engine_full = addAchievement first_click (snd (addParadigm double_paradigm (shop 150)))"

definition engine_saved :: engine where
  "engine_saved = save ''game-state'' None 1 engine_full"

definition engine_played :: engine where
  "engine_played =
     updateProgress ''first-click'' 5
       (snd (switchTo ''prestige''
          (snd (addParadigm prestige (snd (purchase pow_rounded ''click-power'' engine_saved))))))"

definition engine_negative_level :: engine where
  "engine_negative_level = snd (addUpgrade (click_power\<lparr>level := - 1\<rparr>) engine_gold)"

text \<open>
  An inactive paradigm registered under the id \<open>default\<close>, with no paradigm current. An
  engine in which \<open>prestige\<close> is registered and no paradigm is current, and the same
  engine after a save and a switch to \<open>prestige\<close>. A currency registered under the id
  \<open>__proto__\<close> with amount 5, and the same engine after a save and 3 more. An engine
  with 150 \<open>gold\<close> after a save and \<open>CurrencyManager.clear\<close>.
\<close>

definition default_paradigm :: Paradigm where
  "default_paradigm =
     \<lparr>p_id = ''default'', p_name = ''Default'', active = False, productionMultiplier = 1\<rparr>"

definition engine_default :: engine where
  "engine_default = snd (addParadigm default_paradigm engine_gold)"

definition engine_prestige_idle :: engine where
  "engine_prestige_idle = snd (addParadigm prestige engine_gold)"

definition engine_prestige_switched :: engine where
  "engine_prestige_switched =
     snd (switchTo ''prestige'' (save ''game-state'' None 1 engine_prestige_idle))"

definition proto_currency :: Currency where
  "proto_currency = \<lparr>c_id = ''__proto__'', c_name = ''Proto'', amount = 5, symbol = ''P''\<rparr>"

definition engine_proto :: engine where
  "engine_proto = snd (addCurrency proto_currency (new_engine 0))"

definition engine_proto_later :: engine where
  "engine_proto_later = snd (add ''__proto__'' 3 (save ''game-state'' None 1 engine_proto))"

definition engine_cleared :: engine where
  "engine_cleared = currency_clear (save ''game-state'' None 1 (shop 150))"



section \<open>Rounding to a double\<close>

text \<open>
  Once the binade of \<open>x\<close> is known, \<open>round_double x\<close> is a rounded quotient, and it
  is within half a unit in the last place of \<open>x\<close>.
\<close>

lemma floor_log2_eq:
  assumes "2 powi e \<le> x" and "x < 2 powi (e + 1)"
  shows "\<lfloor>log 2 x\<rfloor> = e"
proof -
  have "(0::real) < 2 powi e"
    by simp
  with assms(1) have pos: "0 < x"
    by linarith
  have a: "of_int e \<le> log 2 x"
    using assms(1) pos by (simp add: le_log_iff powr_real_of_int')
  have p: "(2::real) powr (of_int (e + 1)) = 2 powi (e + 1)"
    by (intro powr_real_of_int') simp_all
  have l: "(log 2 x < of_int (e + 1)) = (x < 2 powr of_int (e + 1))"
    by (rule log_less_iff) (use pos in simp_all)
  have "log 2 x < of_int (e + 1)"
    unfolding l p by (rule assms(2))
  then have b: "log 2 x < of_int e + 1"
    by simp
  from a b show ?thesis by (simp add: floor_eq_iff)
qed

lemma round_double_bracket:
  assumes "2 powi e \<le> x" and "x < 2 powi (e + 1)"
  shows "round_double x = of_int (round_half_even (x / 2 powi (e - 52))) * 2 powi (e - 52)"
proof -
  have "(0::real) < 2 powi e"
    by simp
  with assms(1) have pos: "0 < x"
    by linarith
  with floor_log2_eq [OF assms] show ?thesis
    by (simp add: round_double_def Let_def)
qed

lemma round_half_even_near: "\<bar>of_int (round_half_even q) - q\<bar> \<le> 1 / 2"
  unfolding round_half_even_def Let_def by (auto; linarith)

lemma round_double_error:
  assumes "2 powi e \<le> x" and "x < 2 powi (e + 1)"
  shows "\<bar>round_double x - x\<bar> \<le> 2 powi (e - 53)"
proof -
  define u :: real where "u = 2 powi (e - 52)"
  have u: "0 < u" by (simp add: u_def)
  have half: "u / 2 = 2 powi (e - 53)"
    by (simp add: u_def power_int_diff)
  have "round_double x - x = (of_int (round_half_even (x / u)) - x / u) * u"
    using u by (simp add: round_double_bracket [OF assms] u_def [symmetric] algebra_simps)
  then have "\<bar>round_double x - x\<bar> = \<bar>of_int (round_half_even (x / u)) - x / u\<bar> * u"
    using u by (simp add: abs_mult)
  also have "\<dots> \<le> (1 / 2) * u"
    using u round_half_even_near [of "x / u"] by (intro mult_right_mono) simp_all
  finally show ?thesis by (simp add: half [symmetric])
qed

text \<open>The two literals, and a few products.\<close>

lemma round_double_1_15: "round_double 1.15 = 2589569785738035 / 2 ^ 51"
proof -
  have "round_double (1.15) =
          of_int (round_half_even (1.15 / 2 powi (0 - 52))) * 2 powi (0 - 52)"
    by (rule round_double_bracket) simp_all
  also have "\<dots> = 2589569785738035 / 2 ^ 51"
    by (simp add: round_half_even_def power_int_minus Let_def)
  finally show ?thesis .
qed

lemma double_1_15_value: "double_1_15 = 2589569785738035 / 2 ^ 51"
  unfolding double_1_15_def by (rule round_double_1_15)

lemma round_double_1_1: "round_double 1.1 = 2476979795053773 / 2 ^ 51"
proof -
  have "round_double (1.1) =
          of_int (round_half_even (1.1 / 2 powi (0 - 52))) * 2 powi (0 - 52)"
    by (rule round_double_bracket) simp_all
  also have "\<dots> = 2476979795053773 / 2 ^ 51"
    by (simp add: round_half_even_def power_int_minus Let_def)
  finally show ?thesis .
qed

lemma double_1_1_value: "double_1_1 = 2476979795053773 / 2 ^ 51"
  unfolding double_1_1_def by (rule round_double_1_1)

lemma round_double_1: "round_double 1 = 1"
proof -
  have "round_double (1) =
          of_int (round_half_even (1 / 2 powi (0 - 52))) * 2 powi (0 - 52)"
    by (rule round_double_bracket) simp_all
  also have "\<dots> = 1"
    by (simp add: round_half_even_def power_int_minus Let_def)
  finally show ?thesis .
qed

lemma round_double_100: "round_double 100 = 100"
proof -
  have "round_double (100) =
          of_int (round_half_even (100 / 2 powi (6 - 52))) * 2 powi (6 - 52)"
    by (rule round_double_bracket) simp_all
  also have "\<dots> = 100"
    by (simp add: round_half_even_def power_int_minus Let_def)
  finally show ?thesis .
qed

lemma round_double_idem_1_15: "round_double double_1_15 = double_1_15"
proof -
  have "round_double (2589569785738035 / 2 ^ 51) =
          of_int (round_half_even (2589569785738035 / 2 ^ 51 / 2 powi (0 - 52))) * 2 powi (0 - 52)"
    by (rule round_double_bracket) simp_all
  also have "\<dots> = 2589569785738035 / 2 ^ 51"
    by (simp add: round_half_even_def power_int_minus Let_def)
  finally show ?thesis unfolding double_1_15_value .
qed

lemma round_double_idem_1_1: "round_double double_1_1 = double_1_1"
proof -
  have "round_double (2476979795053773 / 2 ^ 51) =
          of_int (round_half_even (2476979795053773 / 2 ^ 51 / 2 powi (0 - 52))) * 2 powi (0 - 52)"
    by (rule round_double_bracket) simp_all
  also have "\<dots> = 2476979795053773 / 2 ^ 51"
    by (simp add: round_half_even_def power_int_minus Let_def)
  finally show ?thesis unfolding double_1_1_value .
qed

lemma product_100_1_15: "round_double (100 * double_1_15) = 8092405580431359 / 2 ^ 46"
proof -
  have "round_double (100 * (2589569785738035 / 2 ^ 51)) =
          of_int (round_half_even (100 * (2589569785738035 / 2 ^ 51) / 2 powi (6 - 52))) * 2 powi (6 - 52)"
    by (rule round_double_bracket) simp_all
  also have "\<dots> = 8092405580431359 / 2 ^ 46"
    by (simp add: round_half_even_def power_int_minus Let_def)
  finally show ?thesis unfolding double_1_15_value .
qed

lemma product_100_1_1: "round_double (100 * double_1_1) = 7740561859543041 / 2 ^ 46"
proof -
  have "round_double (100 * (2476979795053773 / 2 ^ 51)) =
          of_int (round_half_even (100 * (2476979795053773 / 2 ^ 51) / 2 powi (6 - 52))) * 2 powi (6 - 52)"
    by (rule round_double_bracket) simp_all
  also have "\<dots> = 7740561859543041 / 2 ^ 46"
    by (simp add: round_half_even_def power_int_minus Let_def)
  finally show ?thesis unfolding double_1_1_value .
qed

text \<open>A tie: \<open>10 * 1.1\<close> lies half-way between two doubles and goes to the even one, 11.\<close>

lemma product_10_1_1: "round_double (10 * double_1_1) = 11"
proof -
  have "round_double (10 * (2476979795053773 / 2 ^ 51)) =
          of_int (round_half_even (10 * (2476979795053773 / 2 ^ 51) / 2 powi (3 - 52))) * 2 powi (3 - 52)"
    by (rule round_double_bracket) simp_all
  also have "\<dots> = 11"
    by (simp add: round_half_even_def power_int_minus Let_def)
  finally show ?thesis unfolding double_1_1_value .
qed

lemma pow_rounded_0: "x \<noteq> 0 \<Longrightarrow> pow_rounded x 0 = 1"
  by (simp add: pow_rounded_def round_double_1)

lemma pow_rounded_1_15: "pow_rounded double_1_15 1 = double_1_15"
proof -
  have "0 \<le> double_1_15" by (simp add: double_1_15_value)
  then show ?thesis by (simp add: pow_rounded_def round_double_idem_1_15)
qed

lemma pow_rounded_1_1: "pow_rounded double_1_1 1 = double_1_1"
proof -
  have "0 \<le> double_1_1" by (simp add: double_1_1_value)
  then show ?thesis by (simp add: pow_rounded_def round_double_idem_1_1)
qed

section \<open>Facts about the example data\<close>

lemma engine_gold_fields:
  "currencies engine_gold = [(''gold'', gold)]"
  "events engine_gold = [GAME_INITIALIZED, CURRENCY_ADDED ''gold'']"
  by (simp_all add: engine_gold_def addCurrency_def new_engine_def emit_def gold_def)

lemma engine_gold_other_fields:
  "upgrades engine_gold = []"
  "paradigms engine_gold = []"
  "currentParadigm engine_gold = None"
  "achievements engine_gold = []"
  "storage engine_gold = []"
  by (simp_all add: engine_gold_def addCurrency_def new_engine_def emit_def)

lemma shop_fields:
  "currencies (shop g) = [(''gold'', gold\<lparr>amount := g\<rparr>)]"
  "upgrades (shop g) = [(''click-power'', click_power)]"
  "events (shop g) = [GAME_INITIALIZED, CURRENCY_ADDED ''gold'', UPGRADE_AVAILABLE ''click-power'']"
  by (simp_all add: shop_def addCurrency_def addUpgrade_def new_engine_def emit_def gold_def
        click_power_def)

lemma calculateCost_level_0:
  assumes "scalable u = Some True" and "cost u = 100" and "level u = 0"
      and "pw (case scaleFactor u of None \<Rightarrow> double_1_15 | Some f \<Rightarrow> f) 0 = 1"
  shows "calculateCost pw u = 100"
  using assms by (simp add: calculateCost_def round_double_100)

lemma calculateCost_click_power: "calculateCost pow_rounded click_power = 100"
proof -
  have "double_1_15 \<noteq> 0" by (simp add: double_1_15_value)
  then show ?thesis
    by (intro calculateCost_level_0) (simp_all add: click_power_def pow_rounded_0)
qed

lemma engine_ach_fields:
  "achievements engine_ach = [(''first-click'', first_click)]"
  "events engine_ach = [GAME_INITIALIZED]"
  by (simp_all add: engine_ach_def addAchievement_def new_engine_def first_click_def)

lemma engine_paradigms_fields:
  "paradigms engine_paradigms = [('''', base_paradigm), (''prestige'', prestige)]"
  "currentParadigm engine_paradigms = Some ''''"
  by (simp_all add: engine_paradigms_def addParadigm_def new_engine_def base_paradigm_def
        prestige_def Let_def)

section \<open>Every operation keeps the keys unique\<close>

text \<open>
  A new engine has unique keys and every operation keeps them unique, also when it
  throws. \<open>load\<close> and the loops in it leave the click counter alone.
\<close>

lemma unique_keys_new_engine: "unique_keys (new_engine now)"
  by (simp add: unique_keys_def new_engine_def)

lemma unique_keys_emit [simp]: "unique_keys (emit e s) = unique_keys s"
  by (simp add: unique_keys_def emit_def)

lemma unique_keys_addCurrency: "unique_keys s \<Longrightarrow> unique_keys (snd (addCurrency c s))"
  by (simp add: addCurrency_def unique_keys_def emit_def distinct_update)

lemma unique_keys_set_amount: "unique_keys s \<Longrightarrow> unique_keys (snd (set_amount cid amt s))"
  by (simp add: set_amount_def unique_keys_def emit_def distinct_update Let_def split: option.splits)

lemma unique_keys_add: "unique_keys s \<Longrightarrow> unique_keys (snd (add cid amt s))"
  by (simp add: add_def unique_keys_def emit_def distinct_update Let_def split: option.splits)

lemma unique_keys_subtract: "unique_keys s \<Longrightarrow> unique_keys (snd (subtract cid amt s))"
  by (simp add: subtract_def unique_keys_def emit_def distinct_update Let_def split: option.splits)

lemma unique_keys_addUpgrade: "unique_keys s \<Longrightarrow> unique_keys (snd (addUpgrade u s))"
  by (simp add: addUpgrade_def unique_keys_def emit_def distinct_update)

lemma unique_keys_setLevel: "unique_keys s \<Longrightarrow> unique_keys (snd (setLevel uid lvl s))"
  by (simp add: setLevel_def unique_keys_def distinct_update split: option.splits)

lemma unique_keys_purchase:
  assumes "unique_keys s"
  shows "unique_keys (snd (purchase pw uid s))"
proof (cases "map_of (upgrades s) uid")
  case None
  with assms show ?thesis by (simp add: purchase_def)
next
  case (Some u)
  obtain r s1 where sub: "subtract (currencyId u) (calculateCost pw u) s = (r, s1)"
    by (cases "subtract (currencyId u) (calculateCost pw u) s")
  with unique_keys_subtract [OF assms, of "currencyId u" "calculateCost pw u"]
  have u1: "unique_keys s1" by simp
  then have "unique_keys (s1\<lparr>upgrades := AList.update uid v (upgrades s1)\<rparr>)" for v
    by (simp add: unique_keys_def distinct_update)
  with assms Some sub u1 show ?thesis
    by (cases r) (simp_all add: purchase_def Let_def)
qed

lemma unique_keys_addParadigm: "unique_keys s \<Longrightarrow> unique_keys (snd (addParadigm p s))"
  by (simp add: addParadigm_def unique_keys_def distinct_update Let_def)

lemma unique_keys_switchTo: "unique_keys s \<Longrightarrow> unique_keys (snd (switchTo pid s))"
  by (auto simp: switchTo_def unique_keys_def emit_def distinct_update Let_def split: option.splits)

lemma unique_keys_setProductionRate: "unique_keys s \<Longrightarrow> unique_keys (setProductionRate cid r s)"
  by (simp add: setProductionRate_def unique_keys_def emit_def distinct_update)

lemma unique_keys_setClickMultiplier: "unique_keys s \<Longrightarrow> unique_keys (setClickMultiplier cid m s)"
  by (simp add: setClickMultiplier_def unique_keys_def emit_def distinct_update)

lemma unique_keys_tick_rates:
  "unique_keys s \<Longrightarrow> unique_keys (snd (tick_rates rs ds pm s))"
proof (induction rs ds pm s rule: tick_rates.induct)
  case (1 ds pm s)
  then show ?case by simp
next
  case (2 cid rate rest ds pm s)
  show ?case
  proof (cases "0 < rate")
    case False
    with 2 show ?thesis by simp
  next
    case True
    obtain r s' where a: "add cid (rate * ds * pm) s = (r, s')"
      by (cases "add cid (rate * ds * pm) s")
    with unique_keys_add [OF "2.prems", of cid "rate * ds * pm"] have u: "unique_keys s'"
      by simp
    show ?thesis
    proof (cases r)
      case (Inl e)
      with True a u show ?thesis by simp
    next
      case (Inr v)
      with True a u "2.IH"(1) [OF True a [symmetric] Inr] show ?thesis by simp
    qed
  qed
qed

lemma unique_keys_tick:
  assumes "unique_keys s"
  shows "unique_keys (snd (tick dt s))"
proof -
  obtain r s' where t: "tick_rates (productionRates s) (dt / 1000) (getCurrentMultiplier s) s = (r, s')"
    by (cases "tick_rates (productionRates s) (dt / 1000) (getCurrentMultiplier s) s")
  with unique_keys_tick_rates [OF assms, of "productionRates s" "dt / 1000" "getCurrentMultiplier s"]
  have "unique_keys s'" by simp
  with t show ?thesis
    by (cases r) (simp_all add: tick_def Let_def)
qed

lemma unique_keys_pm_click:
  assumes "unique_keys s"
  shows "unique_keys (snd (pm_click cid b s))"
proof -
  obtain r s' where a: "add cid (b * getClickMultiplier cid s * getCurrentMultiplier s) s = (r, s')"
    by (cases "add cid (b * getClickMultiplier cid s * getCurrentMultiplier s) s")
  with unique_keys_add [OF assms, of cid "b * getClickMultiplier cid s * getCurrentMultiplier s"]
  have "unique_keys s'" by simp
  with a show ?thesis
    by (cases r) (simp_all add: pm_click_def Let_def)
qed

lemma unique_keys_addAchievement: "unique_keys s \<Longrightarrow> unique_keys (addAchievement a s)"
  by (simp add: addAchievement_def unique_keys_def distinct_update)

lemma unique_keys_unlockAchievement: "unique_keys s \<Longrightarrow> unique_keys (unlockAchievement aid s)"
  by (simp add: unlockAchievement_def unique_keys_def emit_def distinct_update Let_def
        split: option.splits)

lemma unique_keys_updateProgress:
  assumes "unique_keys s"
  shows "unique_keys (updateProgress aid p s)"
proof -
  have "unique_keys (s\<lparr>achievements := AList.update aid a (achievements s)\<rparr>)" for a
    using assms by (simp add: unique_keys_def distinct_update)
  then show ?thesis
    using assms by (simp add: updateProgress_def Let_def unique_keys_unlockAchievement split: option.splits)
qed


lemma unique_keys_deserialize_achievements:
  "unique_keys s \<Longrightarrow> unique_keys (deserialize_achievements r s)"
proof (induction r s rule: deserialize_achievements.induct)
  case (1 s)
  then show ?case by simp
next
  case (2 aid u p rest s)
  from "2.prems" have "unique_keys (case map_of (achievements s) aid of
          None \<Rightarrow> s
        | Some achievement \<Rightarrow>
            s\<lparr>achievements :=
                AList.update aid (achievement\<lparr>unlocked := u, progress := p\<rparr>) (achievements s)\<rparr>)"
    by (simp add: unique_keys_def distinct_update split: option.splits)
  with "2.IH" show ?case by simp
qed

lemma unique_keys_recordClick: "unique_keys s \<Longrightarrow> unique_keys (recordClick now s)"
  by (simp add: recordClick_def unique_keys_def Let_def)

lemma unique_keys_save: "unique_keys s \<Longrightarrow> unique_keys (save key cs now s)"
  by (simp add: save_def snapshot_def serialize_statistics_def updateTimePlayed_def
        unique_keys_def emit_def distinct_update Let_def split: prod.splits)

lemma restore_currencies_frame:
  "(unique_keys s \<longrightarrow> unique_keys (snd (restore_currencies r s))) \<and>
   totalClicks (snd (restore_currencies r s)) = totalClicks s"
proof (induction r s rule: restore_currencies.induct)
  case (1 s)
  then show ?case by simp
next
  case (2 cid amt rest s)
  obtain r s' where a: "set_amount cid amt s = (r, s')"
    by (cases "set_amount cid amt s")
  then have s': "s' = snd (set_amount cid amt s)" by simp
  have f: "(unique_keys s \<longrightarrow> unique_keys s') \<and> totalClicks s' = totalClicks s"
    unfolding s' using unique_keys_set_amount [of s cid amt]
    by (simp add: set_amount_def emit_def Let_def split: option.splits)
  show ?case
  proof (cases r)
    case (Inl e)
    with a f show ?thesis by simp
  next
    case (Inr v)
    with a f "2.IH" [OF a [symmetric] Inr] show ?thesis by simp
  qed
qed

lemma restore_upgrades_frame:
  "(unique_keys s \<longrightarrow> unique_keys (snd (restore_upgrades r s))) \<and>
   totalClicks (snd (restore_upgrades r s)) = totalClicks s"
proof (induction r s rule: restore_upgrades.induct)
  case (1 s)
  then show ?case by simp
next
  case (2 uid lvl rest s)
  obtain r s' where a: "setLevel uid lvl s = (r, s')"
    by (cases "setLevel uid lvl s")
  then have s': "s' = snd (setLevel uid lvl s)" by simp
  have f: "(unique_keys s \<longrightarrow> unique_keys s') \<and> totalClicks s' = totalClicks s"
    unfolding s' using unique_keys_setLevel [of s uid lvl]
    by (simp add: setLevel_def split: option.splits)
  show ?case
  proof (cases r)
    case (Inl e)
    with a f show ?thesis by simp
  next
    case (Inr v)
    with a f "2.IH" [OF a [symmetric] Inr] show ?thesis by simp
  qed
qed

lemma deserialize_achievements_totalClicks:
  "totalClicks (deserialize_achievements r s) = totalClicks s"
  by (induction r s rule: deserialize_achievements.induct) (simp_all split: option.splits)

lemma switchTo_totalClicks: "totalClicks (snd (switchTo pid s)) = totalClicks s"
  by (simp add: switchTo_def emit_def Let_def split: option.splits)

lemma load_frame:
  "(unique_keys s \<longrightarrow> unique_keys (snd (load key now s))) \<and>
   totalClicks (snd (load key now s)) = totalClicks s"
proof (cases "map_of (storage s) key")
  case None
  then show ?thesis by (simp add: load_def)
next
  case (Some st)
  obtain r1 s1 where r1: "restore_currencies (gs_currencies st) s = (r1, s1)"
    by (cases "restore_currencies (gs_currencies st) s")
  with restore_currencies_frame [of s "gs_currencies st"]
  have f1: "(unique_keys s \<longrightarrow> unique_keys s1) \<and> totalClicks s1 = totalClicks s" by simp
  obtain r2 s2 where r2: "restore_upgrades (gs_upgrades st) s1 = (r2, s2)"
    by (cases "restore_upgrades (gs_upgrades st) s1")
  with restore_upgrades_frame [of s1 "gs_upgrades st"] f1
  have f2: "(unique_keys s \<longrightarrow> unique_keys s2) \<and> totalClicks s2 = totalClicks s" by simp
  define go where "go = (gs_currentParadigm st \<noteq> [] \<and> isAvailable (gs_currentParadigm st) s2)"
  obtain r3 s3 where r3: "(if go then switchTo (gs_currentParadigm st) s2 else (Inr (), s2)) = (r3, s3)"
    by (cases "if go then switchTo (gs_currentParadigm st) s2 else (Inr (), s2)")
  then have "s3 = s2 \<or> s3 = snd (switchTo (gs_currentParadigm st) s2)"
    by (auto split: if_splits)
  with f2 unique_keys_switchTo [of s2 "gs_currentParadigm st"]
  have f3: "(unique_keys s \<longrightarrow> unique_keys s3) \<and> totalClicks s3 = totalClicks s"
    by (auto simp: switchTo_totalClicks)
  define s4 where "s4 = (case gs_achievements st of
                                      None \<Rightarrow> s3
                                    | Some a \<Rightarrow> deserialize_achievements a s3)"
  have f4: "(unique_keys s \<longrightarrow> unique_keys s4) \<and> totalClicks s4 = totalClicks s"
    using f3 by (simp add: s4_def unique_keys_deserialize_achievements
          deserialize_achievements_totalClicks split: option.splits)
  define s5 where "s5 = emit (STATE_LOADED key (timestamp st))
                          (case gs_statistics st of
                                      None \<Rightarrow> s4
                                    | Some stt \<Rightarrow> deserialize_statistics stt now s4)"
  have f5: "(unique_keys s \<longrightarrow> unique_keys s5) \<and> totalClicks s5 = totalClicks s"
    using f4 by (simp add: s5_def deserialize_statistics_def unique_keys_def emit_def split: option.splits)
  show ?thesis
  proof (cases r1)
    case (Inl e)
    then have "load key now s = (None, s1)"
      by (simp add: load_def Some r1)
    with f1 show ?thesis by simp
  next
    case r1i: (Inr v1)
    show ?thesis
    proof (cases r2)
      case (Inl e)
      then have "load key now s = (None, s2)"
        by (simp add: load_def Some r1 r1i r2)
      with f2 show ?thesis by simp
    next
      case r2i: (Inr v2)
      show ?thesis
      proof (cases go)
        case True
        with r3 have sw: "switchTo (gs_currentParadigm st) s2 = (r3, s3)" by simp
        from True have cond: "gs_currentParadigm st \<noteq> []" "isAvailable (gs_currentParadigm st) s2"
          by (simp_all add: go_def)
        show ?thesis
        proof (cases r3)
          case (Inl e)
          then have "load key now s = (None, s3)"
            by (simp add: load_def Some r1 r1i r2 r2i cond sw)
          with f3 show ?thesis by simp
        next
          case (Inr v3)
          then have "load key now s = (Some st, s5)"
            by (simp add: load_def Some r1 r1i r2 r2i cond sw s4_def s5_def Let_def
                  split: option.splits)
          with f5 show ?thesis by simp
        qed
      next
        case False
        with r3 have e: "s3 = s2" by simp
        from False
        have cond: "(gs_currentParadigm st \<noteq> [] \<and> isAvailable (gs_currentParadigm st) s2) = False"
          by (simp add: go_def)
        have "load key now s = (Some st, s5)"
          unfolding load_def
          by (simp add: Some r1 r1i r2 r2i s4_def s5_def e Let_def cond split: option.splits)
        with f5 show ?thesis by simp
      qed
    qed
  qed
qed

lemma unique_keys_click: "unique_keys s \<Longrightarrow> unique_keys (snd (click cid b now s))"
proof -
  assume u: "unique_keys s"
  obtain r s' where a: "pm_click cid (case b of None \<Rightarrow> 1 | Some b \<Rightarrow> b) s = (r, s')"
    by (cases "pm_click cid (case b of None \<Rightarrow> 1 | Some b \<Rightarrow> b) s")
  with unique_keys_pm_click [OF u, of cid "case b of None \<Rightarrow> 1 | Some b \<Rightarrow> b"]
  have "unique_keys s'" by simp
  then have "unique_keys (recordClick now (s'\<lparr>totalClicks := totalClicks s' + 1\<rparr>))"
    by (simp add: recordClick_def unique_keys_def Let_def)
  with a \<open>unique_keys s'\<close> show ?thesis
    by (cases r) (simp_all add: click_def)
qed

lemma unique_keys_saveGame: "unique_keys s \<Longrightarrow> unique_keys (saveGame key now s)"
  by (simp add: saveGame_def unique_keys_save)

lemma unique_keys_loadGame:
  assumes "unique_keys s"
  shows "unique_keys (snd (loadGame key now s))"
proof -
  obtain r s' where l: "load key now s = (r, s')"
    by (cases "load key now s")
  with load_frame [of s key now] assms have "unique_keys s'" by simp
  then have "unique_keys (s'\<lparr>totalClicks := n\<rparr>)" for n
    by (simp add: unique_keys_def)
  with l \<open>unique_keys s'\<close> show ?thesis
    by (simp add: loadGame_def split: option.splits)
qed

section \<open>Currency amounts and zero\<close>

text \<open>\<open>set\<close> and \<open>subtract\<close> store \<open>Math.max(0, ...)\<close>: the amount they store is not negative.\<close>

lemma set_amount_clamps:
  assumes "map_of (currencies s) cid = Some c"
  shows "get cid (snd (set_amount cid amt s)) = max 0 amt"
  using assms by (simp add: set_amount_def get_def emit_def update_conv' Let_def)

lemma subtract_clamps:
  assumes "map_of (currencies s) cid = Some c"
  shows "get cid (snd (subtract cid amt s)) = max 0 (amount c - amt)"
  using assms by (simp add: subtract_def get_def emit_def update_conv' Let_def)

text \<open>\<open>add\<close> stores the sum as it is.\<close>

lemma add_stores_sum:
  assumes "map_of (currencies s) cid = Some c"
  shows "get cid (snd (add cid amt s)) = amount c + amt"
  using assms by (simp add: add_def get_def emit_def update_conv' Let_def)

text \<open>
  Claim C1: for every registered currency and every sequence of set, add and subtract
  operations the stored amount is never negative, each of the three clamping its result
  to at least 0. \<open>add\<close> has no clamp: on the registered currency \<open>gold\<close> with amount 0,
  \<open>add('gold', -5)\<close> returns \<open>-5\<close> and stores it.
\<close>

theorem add_below_zero:
  "get ''gold'' engine_gold = 0 \<and>
   fst (add ''gold'' (- 5) engine_gold) = Inr (- 5) \<and>
   get ''gold'' (snd (add ''gold'' (- 5) engine_gold)) = - 5"
  by (simp add: add_def get_def engine_gold_fields emit_def gold_def)

section \<open>Purchasing upgrades\<close>

text \<open>
  Claim C2: for every registered upgrade whose backing currency balance is strictly less
  than the computed current cost, \<open>purchase\<close> returns \<open>false\<close> and mutates nothing: the
  whole engine state, with the currency balance, the upgrade and the sequence of published
  events, is the one before the call. The balance is the one \<open>has\<close> reads, through
  \<open>get\<close>.
\<close>

theorem purchase_insufficient:
  assumes "map_of (upgrades s) upgradeId = Some upgrade"
      and "get (currencyId upgrade) s < calculateCost pw upgrade"
  shows "purchase pw upgradeId s = (Inr False, s)"
  using assms by (simp add: purchase_def has_def)

theorem purchase_insufficient_witness:
  "map_of (upgrades (shop 50)) ''click-power'' = Some click_power \<and>
   get (currencyId click_power) (shop 50) < calculateCost pow_rounded click_power \<and>
   purchase pow_rounded ''click-power'' (shop 50) = (Inr False, shop 50)"
proof -
  have h1: "map_of (upgrades (shop 50)) ''click-power'' = Some click_power"
    by (simp add: shop_fields)
  have h2: "get (currencyId click_power) (shop 50) < calculateCost pow_rounded click_power"
    by (simp add: calculateCost_click_power get_def shop_fields)
  from purchase_insufficient [OF h1 h2] h1 h2 show ?thesis by simp
qed






lemma calculateCost_level_1:
  assumes "scalable u = Some True" and "cost u = 100" and "level u = 1"
      and "scaleFactor u = Some (double_1_15)"
      and "pw (double_1_15) 1 = double_1_15"
  shows "calculateCost pw u = 115"
  using assms by (simp add: calculateCost_def product_100_1_15 ceiling_eq_iff)

lemma calculateCost_level_2:
  assumes "scalable u = Some True" and "cost u = 100" and "level u = 2"
      and "scaleFactor u = Some (double_1_15)"
      and "\<bar>pw (double_1_15) 2 - double_1_15 * double_1_15\<bar> \<le> 2 powi (- 52)"
  shows "calculateCost pw u = 133"
proof -
  define y where "y = pw (double_1_15) 2"
  define c :: real where "c = double_1_15 * double_1_15"
  define d :: real where "d = 2 powi (- 52)"
  have c: "1322 / 1000 \<le> c - 1 / 10000" "c + 1 / 10000 \<le> 1323 / 1000"
    by (simp_all add: c_def double_1_15_value)
  have d: "d \<le> 1 / 10000"
    by (simp add: d_def power_int_minus)
  from assms(5) have "\<bar>y - c\<bar> \<le> d"
    by (simp add: y_def c_def d_def)
  with c d have lo: "1322 / 1000 \<le> y" and hi: "y \<le> 1323 / 1000"
    by linarith+
  then have b1: "2 powi 7 \<le> 100 * y" and b2: "100 * y < 2 powi (7 + 1)"
    by simp_all
  define e :: real where "e = 2 powi (7 - 53)"
  have e: "e \<le> 1 / 1000"
    by (simp add: e_def power_int_minus)
  from round_double_error [OF b1 b2] have "\<bar>round_double (100 * y) - 100 * y\<bar> \<le> e"
    by (simp add: e_def)
  with lo hi e have "132 < round_double (100 * y)" and "round_double (100 * y) \<le> 133"
    by linarith+
  then have "\<lceil>round_double (100 * y)\<rceil> = 133"
    by (simp add: ceiling_eq_iff)
  with assms(1-4) show ?thesis
    by (simp add: calculateCost_def y_def)
qed

text \<open>
  Claim C3, as stated: for every upgrade the current cost of a scalable upgrade equals
  \<open>ceil(baseCost * scaleFactor^level)\<close>. The code takes \<open>Math.ceil\<close> of the rounded
  double product. With base cost 10, the scale factor that the literal \<open>1.1\<close> denotes and
  level 1, the product is a tie that rounds down to 11, so the cost is 11, where the
  ceiling of the product of the stored numbers is 12. With base cost 100 the rounded
  product is above 110 and the cost is 111, where \<open>ceil(100 * 1.1)\<close> on the decimal
  numbers is 110.
\<close>

theorem calculateCost_rounds_before_ceiling:
  "calculateCost pow_rounded (click_power\<lparr>cost := 10, scaleFactor := Some (double_1_1), level := 1\<rparr>) = 11 \<and>
   \<lceil>10 * double_1_1 powr 1\<rceil> = 12 \<and>
   calculateCost pow_rounded (click_power\<lparr>scaleFactor := Some (double_1_1), level := 1\<rparr>) = 111 \<and>
   \<lceil>100 * (1.1 :: real) powr 1\<rceil> = 110"
proof -
  have "\<lceil>10 * double_1_1 powr 1\<rceil> = 12"
    by (simp add: double_1_1_value ceiling_eq_iff)
  moreover have "\<lceil>100 * (1.1 :: real) powr 1\<rceil> = 110"
    by (simp add: ceiling_eq_iff)
  moreover have "calculateCost pow_rounded
      (click_power\<lparr>cost := 10, scaleFactor := Some (double_1_1), level := 1\<rparr>) = 11"
    by (simp add: calculateCost_def click_power_def pow_rounded_1_1 product_10_1_1)
  moreover have "calculateCost pow_rounded
      (click_power\<lparr>scaleFactor := Some (double_1_1), level := 1\<rparr>) = 111"
    by (simp add: calculateCost_def click_power_def pow_rounded_1_1 product_100_1_1 ceiling_eq_iff)
  ultimately show ?thesis by simp
qed

text \<open>
  Claim C3, amended: the current cost of a scalable upgrade is \<open>Math.ceil\<close> of the
  double product of \<open>baseCost\<close> and \<open>Math.pow(scaleFactor, level)\<close>, with the double of
  \<open>1.15\<close> for a missing scale factor, and it is \<open>baseCost\<close> whatever the level when the
  upgrade is not scalable. For base cost 100 and the scale factor that the literal
  \<open>1.15\<close> denotes the cost is 100 at level 0, where \<open>Math.pow\<close> returns 1; 115 at level 1
  when \<open>Math.pow\<close> returns its base at exponent 1; and 133 at level 2 when \<open>Math.pow\<close>
  is within one unit in the last place (\<open>2^-52\<close>) of the square.
\<close>

theorem calculateCost_formula:
  "(scalable u = Some True \<longrightarrow>
      calculateCost pw u =
        real_of_int \<lceil>round_double (cost u *
          pw (case scaleFactor u of None \<Rightarrow> double_1_15 | Some f \<Rightarrow> f) (level u))\<rceil>) \<and>
   (scalable u \<noteq> Some True \<longrightarrow> calculateCost pw u = cost u) \<and>
   (scalable u = Some True \<and> cost u = 100 \<and> scaleFactor u = Some (double_1_15) \<longrightarrow>
      (level u = 0 \<and> pw (double_1_15) 0 = 1 \<longrightarrow> calculateCost pw u = 100) \<and>
      (level u = 1 \<and> pw (double_1_15) 1 = double_1_15 \<longrightarrow> calculateCost pw u = 115) \<and>
      (level u = 2 \<and>
       \<bar>pw (double_1_15) 2 - double_1_15 * double_1_15\<bar> \<le> 2 powi (- 52) \<longrightarrow>
         calculateCost pw u = 133))"
proof (intro conjI impI)
  assume "scalable u = Some True"
  then show "calculateCost pw u =
        real_of_int \<lceil>round_double (cost u *
          pw (case scaleFactor u of None \<Rightarrow> double_1_15 | Some f \<Rightarrow> f) (level u))\<rceil>"
    by (simp add: calculateCost_def)
next
  assume "scalable u \<noteq> Some True"
  then show "calculateCost pw u = cost u"
    by (simp add: calculateCost_def)
next
  assume "scalable u = Some True \<and> cost u = 100 \<and> scaleFactor u = Some (double_1_15)"
    and "level u = 0 \<and> pw (double_1_15) 0 = 1"
  then show "calculateCost pw u = 100"
    by (intro calculateCost_level_0) simp_all
next
  assume "scalable u = Some True \<and> cost u = 100 \<and> scaleFactor u = Some (double_1_15)"
    and "level u = 1 \<and> pw (double_1_15) 1 = double_1_15"
  then show "calculateCost pw u = 115"
    by (intro calculateCost_level_1) simp_all
next
  assume "scalable u = Some True \<and> cost u = 100 \<and> scaleFactor u = Some (double_1_15)"
    and "level u = 2 \<and>
       \<bar>pw (double_1_15) 2 - double_1_15 * double_1_15\<bar> \<le> 2 powi (- 52)"
  then show "calculateCost pw u = 133"
    by (intro calculateCost_level_2) simp_all
qed

lemma pow_rounded_square_1_15:
  "\<bar>pow_rounded (double_1_15) 2 - double_1_15 * double_1_15\<bar> \<le> 2 powi (- 52)"
proof -
  define x :: real where "x = (2589569785738035 / 2 ^ 51) * (2589569785738035 / 2 ^ 51)"
  have b1: "2 powi 0 \<le> x" and b2: "x < 2 powi (0 + 1)"
    by (simp_all add: x_def)
  have p: "double_1_15 powr 2 = x"
    by (simp add: double_1_15_value x_def power2_eq_square)
  from round_double_error [OF b1 b2] have "\<bar>round_double x - x\<bar> \<le> 2 powi (- 53)"
    by simp
  also have "\<dots> \<le> 2 powi (- 52)"
    by (simp add: power_int_minus)
  finally show ?thesis
    by (simp add: pow_rounded_def p) (simp add: x_def double_1_15_value)
qed

theorem calculateCost_formula_witness:
  "scalable click_power = Some True \<and> cost click_power = 100 \<and>
   scaleFactor click_power = Some (double_1_15) \<and>
   pow_rounded (double_1_15) 0 = 1 \<and>
   pow_rounded (double_1_15) 1 = double_1_15 \<and>
   \<bar>pow_rounded (double_1_15) 2 - double_1_15 * double_1_15\<bar> \<le> 2 powi (- 52) \<and>
   calculateCost pow_rounded click_power = 100 \<and>
   calculateCost pow_rounded (click_power\<lparr>level := 1\<rparr>) = 115 \<and>
   calculateCost pow_rounded (click_power\<lparr>level := 2\<rparr>) = 133 \<and>
   scalable (click_power\<lparr>scalable := None, level := 2\<rparr>) \<noteq> Some True \<and>
   calculateCost pow_rounded (click_power\<lparr>scalable := None, level := 2\<rparr>) = 100"
proof -
  have nz: "double_1_15 \<noteq> 0" by (simp add: double_1_15_value)
  have h0: "pow_rounded (double_1_15) 0 = 1"
    using nz by (rule pow_rounded_0)
  note h1 = pow_rounded_1_15 and h2 = pow_rounded_square_1_15
  from calculateCost_formula [of click_power pow_rounded]
       calculateCost_formula [of "click_power\<lparr>level := 1\<rparr>" pow_rounded]
       calculateCost_formula [of "click_power\<lparr>level := 2\<rparr>" pow_rounded]
       calculateCost_formula [of "click_power\<lparr>scalable := None, level := 2\<rparr>" pow_rounded]
       h0 h1 h2
  show ?thesis
    by (simp add: click_power_def)
qed

section \<open>Achievements\<close>

text \<open>
  Claim C9, as stated: for a registered achievement that is not yet unlocked,
  \<open>updateProgress\<close> publishes \<open>achievement:progress\<close> only when \<open>progress < target\<close>.
  The source emits \<open>achievement:progress\<close> at the end of \<open>updateProgress\<close> on every
  path that reaches it: with target 3 and progress 5 the achievement is unlocked and both
  events are published.
\<close>

theorem updateProgress_unlock_publishes_progress:
  "\<not> unlocked first_click \<and> 5 \<ge> target first_click \<and>
   events (updateProgress ''first-click'' 5 engine_ach) =
     [GAME_INITIALIZED,
      ACHIEVEMENT_UNLOCKED ''first-click'' (first_click\<lparr>unlocked := True, progress := 3\<rparr>),
      ACHIEVEMENT_PROGRESS ''first-click'' 5 3]"
  by (simp add: updateProgress_def unlockAchievement_def emit_def engine_ach_fields Let_def
        first_click_def)

text \<open>
  Claim C9, amended: for a registered achievement that is not yet unlocked,
  \<open>updateProgress(id, progress)\<close> publishes \<open>achievement:unlocked\<close> exactly when
  \<open>progress >= target\<close>, storing the achievement unlocked with its progress set to the
  target, and otherwise stores the progress; in both cases it then publishes
  \<open>achievement:progress\<close> with the progress passed in and the target. No other
  achievement changes.
\<close>

theorem updateProgress_events:
  assumes "map_of (achievements s) aid = Some a" and "\<not> unlocked a"
  shows "events (updateProgress aid p s) =
           events s @
           (if p \<ge> target a
            then [ACHIEVEMENT_UNLOCKED aid (a\<lparr>unlocked := True, progress := target a\<rparr>)]
            else []) @
           [ACHIEVEMENT_PROGRESS aid p (target a)] \<and>
         map_of (achievements (updateProgress aid p s)) =
           (map_of (achievements s))(aid \<mapsto>
              (if p \<ge> target a then a\<lparr>unlocked := True, progress := target a\<rparr>
               else a\<lparr>progress := p\<rparr>))"
  using assms
  by (simp add: updateProgress_def unlockAchievement_def emit_def update_conv' Let_def)

theorem updateProgress_events_witness:
  "map_of (achievements engine_ach) ''first-click'' = Some first_click \<and>
   \<not> unlocked first_click \<and>
   events (updateProgress ''first-click'' 2 engine_ach) =
     [GAME_INITIALIZED, ACHIEVEMENT_PROGRESS ''first-click'' 2 3] \<and>
   map_of (achievements (updateProgress ''first-click'' 2 engine_ach)) ''first-click'' =
     Some (first_click\<lparr>progress := 2\<rparr>) \<and>
   events (updateProgress ''first-click'' 3 engine_ach) =
     [GAME_INITIALIZED,
      ACHIEVEMENT_UNLOCKED ''first-click'' (first_click\<lparr>unlocked := True, progress := 3\<rparr>),
      ACHIEVEMENT_PROGRESS ''first-click'' 3 3]"
proof -
  have h1: "map_of (achievements engine_ach) ''first-click'' = Some first_click"
    by (simp add: engine_ach_fields)
  have h2: "\<not> unlocked first_click"
    by (simp add: first_click_def)
  from updateProgress_events [OF h1 h2, of 2] updateProgress_events [OF h1 h2, of 3] h1 h2
  show ?thesis
    by (simp add: engine_ach_fields) (simp add: first_click_def)
qed

text \<open>
  Claim C10: registering an achievement never fails. \<open>addAchievement\<close> has no error
  result; it stores the achievement under its id, replacing what was stored there with its
  unlocked flag and progress, and publishes nothing. Registering a currency, an upgrade or
  a paradigm under an id that is already registered throws and changes nothing.
\<close>

theorem addAchievement_replaces:
  "map_of (achievements (addAchievement a s)) = (map_of (achievements s))(a_id a \<mapsto> a) \<and>
   events (addAchievement a s) = events s \<and>
   (map_of (currencies s) (c_id c) \<noteq> None \<longrightarrow>
      addCurrency c s = (Inl (CurrencyExists (c_id c)), s)) \<and>
   (map_of (upgrades s) (u_id u) \<noteq> None \<longrightarrow>
      addUpgrade u s = (Inl (UpgradeExists (u_id u)), s)) \<and>
   (map_of (paradigms s) (p_id p) \<noteq> None \<longrightarrow>
      addParadigm p s = (Inl (ParadigmExists (p_id p)), s))"
  by (simp add: addAchievement_def addCurrency_def addUpgrade_def addParadigm_def update_conv')

theorem addAchievement_replaces_witness:
  "map_of (achievements engine_ach) (a_id first_click) = Some first_click \<and>
   map_of (achievements (addAchievement (first_click\<lparr>target := 10\<rparr>)
             (updateProgress ''first-click'' 5 engine_ach))) ''first-click'' =
     Some (first_click\<lparr>target := 10\<rparr>) \<and>
   map_of (currencies (shop 0)) (c_id gold) \<noteq> None \<and>
   addCurrency gold (shop 0) = (Inl (CurrencyExists ''gold''), shop 0) \<and>
   map_of (upgrades (shop 0)) (u_id click_power) \<noteq> None \<and>
   addUpgrade click_power (shop 0) = (Inl (UpgradeExists ''click-power''), shop 0) \<and>
   map_of (paradigms engine_paradigms) (p_id prestige) \<noteq> None \<and>
   addParadigm prestige engine_paradigms = (Inl (ParadigmExists ''prestige''), engine_paradigms)"
  using addAchievement_replaces [of "first_click\<lparr>target := 10\<rparr>"
          "updateProgress ''first-click'' 5 engine_ach" gold click_power prestige]
        addAchievement_replaces [of first_click "shop 0" gold click_power prestige]
        addAchievement_replaces [of first_click engine_paradigms gold click_power prestige]
  by (simp add: shop_fields engine_ach_fields engine_paradigms_fields)
     (simp add: first_click_def gold_def click_power_def prestige_def)

section \<open>Paradigms\<close>

text \<open>
  Claim C5: for every sequence of paradigm register and switchTo calls at most one
  paradigm has its active flag true, and \<open>getCurrentMultiplier()\<close> returns the active
  paradigm's multiplier, or 1 when none is active. \<open>switchTo\<close> and \<open>getCurrent\<close>
  test \<open>currentParadigm\<close> for truthiness where \<open>addParadigm\<close> tests \<open>=== null\<close>: a
  current paradigm registered under the empty id is not deactivated by \<open>switchTo\<close>, so
  two paradigms are active after it, and while it is the active one
  \<open>getCurrentMultiplier()\<close> returns 1 and not its multiplier 2.
\<close>

theorem switchTo_empty_id_two_active:
  "map (\<lambda>(k, p). (k, active p)) (paradigms (snd (switchTo ''prestige'' engine_paradigms))) =
     [('''', True), (''prestige'', True)] \<and>
   map (\<lambda>(k, p). (k, active p)) (paradigms (snd (addParadigm base_paradigm (new_engine 0)))) =
     [('''', True)] \<and>
   productionMultiplier base_paradigm = 2 \<and>
   getCurrentMultiplier (snd (addParadigm base_paradigm (new_engine 0))) = 1"
  by (simp add: switchTo_def truthy_def engine_paradigms_fields emit_def Let_def
        getCurrentMultiplier_def getCurrent_def addParadigm_def new_engine_def;
      simp add: base_paradigm_def prestige_def)

text \<open>
  When every registered id is non-empty the two tests of \<open>currentParadigm\<close> agree, and
  the property of claim C5 holds after every sequence of calls on a new engine: at most
  one paradigm is active, \<open>getCurrentMultiplier()\<close> is the multiplier of the active
  paradigm, and it is 1 when no paradigm is active.
\<close>

lemma new_engine_consistent: "paradigms_consistent (new_engine now)"
  by (simp add: paradigms_consistent_def new_engine_def)

lemma addParadigm_consistent:
  assumes "paradigms_consistent s" and "p_id p \<noteq> []"
  shows "paradigms_consistent (snd (addParadigm p s))"
proof (cases "map_of (paradigms s) (p_id p) = None")
  case False
  with assms show ?thesis by (simp add: addParadigm_def)
next
  case True
  with assms(1) have cur: "currentParadigm s \<noteq> Some (p_id p)"
    by (auto simp: paradigms_consistent_def)
  from assms True cur show ?thesis
    unfolding paradigms_consistent_def addParadigm_def
    by (auto simp: Let_def update_conv' split: if_splits)
qed

lemma switchTo_consistent:
  assumes "paradigms_consistent s"
  shows "paradigms_consistent (snd (switchTo pid s))"
proof (cases "map_of (paradigms s) pid")
  case None
  with assms show ?thesis by (simp add: switchTo_def)
next
  case (Some np)
  with assms have pid: "pid \<noteq> []"
    by (auto simp: paradigms_consistent_def)
  show ?thesis
  proof (cases "currentParadigm s")
    case None
    with assms Some pid show ?thesis
      unfolding paradigms_consistent_def switchTo_def
      by (auto simp: Let_def truthy_def emit_def update_conv' split: option.splits)
  next
    case (Some c)
    with assms obtain cp where cp: "map_of (paradigms s) c = Some cp" and c: "c \<noteq> []"
      by (auto simp: paradigms_consistent_def)
    from assms Some \<open>map_of (paradigms s) pid = Some np\<close> pid cp c show ?thesis
      unfolding paradigms_consistent_def switchTo_def
      by (auto simp: Let_def truthy_def emit_def update_conv' split: option.splits if_splits)
  qed
qed

lemma paradigm_calls_consistent:
  assumes "paradigms_consistent s" and "list_all registers_nonempty_id calls"
  shows "paradigms_consistent (paradigm_calls calls s)"
  using assms
proof (induction calls s rule: paradigm_calls.induct)
  case (1 s)
  then show ?case by simp
next
  case (2 p calls s)
  then show ?case by (simp add: addParadigm_consistent)
next
  case (3 pid calls s)
  then show ?case by (simp add: switchTo_consistent)
qed

lemma consistent_single_active:
  assumes "paradigms_consistent s"
  shows "(\<forall>i j p q. map_of (paradigms s) i = Some p \<and> active p \<and>
                     map_of (paradigms s) j = Some q \<and> active q \<longrightarrow> i = j) \<and>
         (\<forall>i p. map_of (paradigms s) i = Some p \<and> active p \<longrightarrow>
                 getCurrentMultiplier s = productionMultiplier p) \<and>
         ((\<forall>i p. map_of (paradigms s) i = Some p \<longrightarrow> \<not> active p) \<longrightarrow>
            getCurrentMultiplier s = 1)"
  using assms
  unfolding paradigms_consistent_def getCurrentMultiplier_def getCurrent_def truthy_def
  by (auto split: option.splits)

lemma paradigm_calls_single_active:
  assumes "list_all registers_nonempty_id calls"
  shows "(\<forall>i j p q. map_of (paradigms (paradigm_calls calls (new_engine now))) i = Some p \<and> active p \<and>
                     map_of (paradigms (paradigm_calls calls (new_engine now))) j = Some q \<and> active q
                     \<longrightarrow> i = j) \<and>
         (\<forall>i p. map_of (paradigms (paradigm_calls calls (new_engine now))) i = Some p \<and> active p \<longrightarrow>
                 getCurrentMultiplier (paradigm_calls calls (new_engine now)) = productionMultiplier p) \<and>
         ((\<forall>i p. map_of (paradigms (paradigm_calls calls (new_engine now))) i = Some p \<longrightarrow> \<not> active p) \<longrightarrow>
            getCurrentMultiplier (paradigm_calls calls (new_engine now)) = 1)"
  by (rule consistent_single_active)
     (rule paradigm_calls_consistent [OF new_engine_consistent assms])


section \<open>The click counter in the snapshot\<close>

lemma snapshot_totalClicks: "gs_totalClicks (fst (snapshot cs now s)) = 0"
  by (simp add: snapshot_def Let_def split: prod.splits)

lemma engine_clicked_totalClicks: "totalClicks engine_clicked = 3"
  by (simp add: engine_clicked_def click_def pm_click_def add_def engine_gold_fields
        recordClick_def emit_def Let_def update_conv' getClickMultiplier_def getCurrentMultiplier_def
        getCurrent_def truthy_def new_engine_def engine_gold_def addCurrency_def gold_def)

text \<open>
  Claim C8: the GameState produced by snapshot records the engine's accumulated total
  click count in its \<open>totalClicks\<close> field, and restoring a saved state reproduces that
  count. \<open>snapshot\<close> writes the constant 0 into the field: after three clicks the
  engine's counter is 3 and the state stored by \<open>saveGame\<close> has \<open>totalClicks\<close> 0.
\<close>

theorem saveGame_totalClicks_field_zero:
  "getTotalClicks engine_clicked = 3 \<and>
   map_option gs_totalClicks
     (map_of (storage (saveGame ''game-state'' 40 engine_clicked)) ''game-state'') = Some 0"
  by (simp add: getTotalClicks_def engine_clicked_totalClicks saveGame_def save_def snapshot_def
        serialize_statistics_def emit_def Let_def update_conv' split: prod.splits)


text \<open>
  \<open>loadGame\<close> sets the engine's counter to the saved count when that count is not 0; a
  saved count of 0 leaves the counter as it was before the load.
\<close>

lemma loadGame_count:
  assumes "fst (load key now s) = Some st"
  shows "fst (loadGame key now s) \<and>
         getTotalClicks (snd (loadGame key now s)) =
           (case custom st of
              None \<Rightarrow> getTotalClicks s
            | Some n \<Rightarrow> if n \<noteq> 0 then n else getTotalClicks s)"
proof -
  obtain s' where l: "load key now s = (Some st, s')"
    using assms by (cases "load key now s") simp
  with load_frame [of s key now] have "totalClicks s' = totalClicks s" by simp
  with l show ?thesis
    by (simp add: loadGame_def getTotalClicks_def split: option.splits)
qed

section \<open>Production ticks\<close>











section \<open>Saving and loading\<close>

text \<open>
  With unique keys, the three records of the snapshot list the entries of the maps in map
  order, without the entry under \<open>__proto__\<close>.
\<close>

lemma update_fresh: "k \<notin> fst ` set al \<Longrightarrow> AList.update k v al = al @ [(k, v)]"
  by (induction al) auto

lemma fold_update_distinct:
  assumes "distinct (map fst xs)" and "fst ` set xs \<inter> fst ` set acc = {}"
  shows "fold (\<lambda>(k, v) r. if k = p then r else AList.update k (f v) r) xs acc =
           acc @ map (\<lambda>(k, v). (k, f v)) (filter (\<lambda>(k, v). k \<noteq> p) xs)"
  using assms
proof (induction xs arbitrary: acc)
  case Nil
  then show ?case by simp
next
  case (Cons x xs)
  obtain k v where x: "x = (k, v)" by (cases x)
  show ?case
  proof (cases "k = p")
    case True
    from Cons.prems have "fold (\<lambda>(k, v) r. if k = p then r else AList.update k (f v) r) xs acc =
        acc @ map (\<lambda>(k, v). (k, f v)) (filter (\<lambda>(k, v). k \<noteq> p) xs)"
      by (intro Cons.IH) auto
    with x True show ?thesis by simp
  next
    case False
    from Cons.prems x have fresh: "k \<notin> fst ` set acc" by auto
    from Cons.prems x have "fst ` set xs \<inter> fst ` set (acc @ [(k, f v)]) = {}" by auto
    with Cons.prems x
    have "fold (\<lambda>(k, v) r. if k = p then r else AList.update k (f v) r) xs (acc @ [(k, f v)]) =
        (acc @ [(k, f v)]) @ map (\<lambda>(k, v). (k, f v)) (filter (\<lambda>(k, v). k \<noteq> p) xs)"
      by (intro Cons.IH) auto
    with x fresh False show ?thesis by (simp add: update_fresh)
  qed
qed

lemma getAllAsRecord_distinct:
  "distinct (map fst (currencies s)) \<Longrightarrow>
   getAllAsRecord s =
     map (\<lambda>(cid, c). (cid, amount c)) (filter (\<lambda>(cid, c). cid \<noteq> ''__proto__'') (currencies s))"
  unfolding getAllAsRecord_def
  using fold_update_distinct [of "currencies s" "[]" "''__proto__''" amount] by simp

lemma getAsRecord_distinct:
  "distinct (map fst (upgrades s)) \<Longrightarrow>
   getAsRecord s =
     map (\<lambda>(uid, u). (uid, level u)) (filter (\<lambda>(uid, u). uid \<noteq> ''__proto__'') (upgrades s))"
  unfolding getAsRecord_def
  using fold_update_distinct [of "upgrades s" "[]" "''__proto__''" level] by simp

lemma serialize_achievements_distinct:
  "distinct (map fst (achievements s)) \<Longrightarrow>
   serialize_achievements s =
     map (\<lambda>(aid, a). (aid, unlocked a, progress a))
       (filter (\<lambda>(aid, a). aid \<noteq> ''__proto__'') (achievements s))"
  unfolding serialize_achievements_def
  using fold_update_distinct [of "achievements s" "[]" "''__proto__''"
          "\<lambda>a. (unlocked a, progress a)"] by simp

lemma map_of_map_values:
  "map_of (map (\<lambda>(k, v). (k, f v)) xs) k = map_option f (map_of xs k)"
  by (induction xs) auto

lemma map_of_filter_key:
  "map_of (filter (\<lambda>(k, v). k \<noteq> p) xs) k = (if k = p then None else map_of xs k)"
  by (induction xs) auto

lemma distinct_filter_key:
  "distinct (map fst xs) \<Longrightarrow> distinct (map fst (filter (\<lambda>(k, v). k \<noteq> p) xs))"
  by (induction xs) auto

lemma keys_filter_key: "fst ` set (filter (\<lambda>(k, v). k \<noteq> p) xs) = fst ` set xs - {p}"
  by (induction xs) auto

lemma fst_comp_values: "fst \<circ> (\<lambda>(k, v). (k, f v)) = fst"
  by auto

lemma keys_set_values: "fst ` set (map (\<lambda>(k, v). (k, f v)) xs) = fst ` set xs"
  by (induction xs) auto

lemma set_amount_registered:
  assumes "map_of (currencies s) cid = Some c"
  shows "set_amount cid amt s =
           (Inr (),
            s\<lparr>currencies := AList.update cid (c\<lparr>amount := max 0 amt\<rparr>) (currencies s),
              events := events s @ [CURRENCY_CHANGED cid (amount c) (max 0 amt) (max 0 amt - amount c)]\<rparr>)"
  using assms by (simp add: set_amount_def emit_def Let_def)

lemma restore_currencies_effect:
  assumes "distinct (map fst r)"
      and "\<forall>cid\<in>fst ` set r. map_of (currencies s) cid \<noteq> None"
  shows "\<exists>cs ev. restore_currencies r s = (Inr (), s\<lparr>currencies := cs, events := ev\<rparr>) \<and>
           (\<forall>cid. map_of cs cid =
              (case map_of r cid of
                 None \<Rightarrow> map_of (currencies s) cid
               | Some amt \<Rightarrow> map_option (\<lambda>c. c\<lparr>amount := max 0 amt\<rparr>) (map_of (currencies s) cid)))"
  using assms
proof (induction r arbitrary: s)
  case Nil
  show ?case
    by (intro exI [of _ "currencies s"] exI [of _ "events s"]) simp
next
  case (Cons x r)
  obtain k a where x: "x = (k, a)" by (cases x)
  from Cons.prems x obtain c where c: "map_of (currencies s) k = Some c" by auto
  define s1 where "s1 = s\<lparr>currencies := AList.update k (c\<lparr>amount := max 0 a\<rparr>) (currencies s),
              events := events s @ [CURRENCY_CHANGED k (amount c) (max 0 a) (max 0 a - amount c)]\<rparr>"
  have step: "restore_currencies (x # r) s = restore_currencies r s1"
    using x by (simp add: set_amount_registered [OF c] s1_def)
  from Cons.prems x have dist: "distinct (map fst r)" and fresh: "map_of r k = None"
    by (auto simp: map_of_eq_None_iff)
  have reg: "\<forall>cid\<in>fst ` set r. map_of (currencies s1) cid \<noteq> None"
    using Cons.prems(2) by (auto simp: s1_def update_conv')
  from Cons.IH [OF dist reg] obtain cs ev where
    r: "restore_currencies r s1 = (Inr (), s1\<lparr>currencies := cs, events := ev\<rparr>)" and
    l: "\<And>cid. map_of cs cid =
              (case map_of r cid of
                 None \<Rightarrow> map_of (currencies s1) cid
               | Some amt \<Rightarrow> map_option (\<lambda>c. c\<lparr>amount := max 0 amt\<rparr>) (map_of (currencies s1) cid))"
    by blast
  have eq: "s1\<lparr>currencies := cs, events := ev\<rparr> = s\<lparr>currencies := cs, events := ev\<rparr>"
    by (simp add: s1_def)
  have "map_of cs cid =
          (case map_of (x # r) cid of
             None \<Rightarrow> map_of (currencies s) cid
           | Some amt \<Rightarrow> map_option (\<lambda>c. c\<lparr>amount := max 0 amt\<rparr>) (map_of (currencies s) cid))" for cid
    using l [of cid] x fresh c
    by (cases "cid = k") (auto simp: s1_def update_conv' split: option.splits)
  with step r eq show ?case by auto
qed


lemma setLevel_registered:
  assumes "map_of (upgrades s) uid = Some u"
  shows "setLevel uid lvl s =
           (Inr (), s\<lparr>upgrades := AList.update uid (u\<lparr>level := max 0 lvl\<rparr>) (upgrades s)\<rparr>)"
  using assms by (simp add: setLevel_def)

lemma restore_upgrades_effect:
  assumes "distinct (map fst r)"
      and "\<forall>uid\<in>fst ` set r. map_of (upgrades s) uid \<noteq> None"
  shows "\<exists>us. restore_upgrades r s = (Inr (), s\<lparr>upgrades := us\<rparr>) \<and>
           (\<forall>uid. map_of us uid =
              (case map_of r uid of
                 None \<Rightarrow> map_of (upgrades s) uid
               | Some lvl \<Rightarrow> map_option (\<lambda>u. u\<lparr>level := max 0 lvl\<rparr>) (map_of (upgrades s) uid)))"
  using assms
proof (induction r arbitrary: s)
  case Nil
  show ?case
    by (intro exI [of _ "upgrades s"]) simp
next
  case (Cons x r)
  obtain k a where x: "x = (k, a)" by (cases x)
  from Cons.prems x obtain u where u: "map_of (upgrades s) k = Some u" by auto
  define s1 where "s1 = s\<lparr>upgrades := AList.update k (u\<lparr>level := max 0 a\<rparr>) (upgrades s)\<rparr>"
  have step: "restore_upgrades (x # r) s = restore_upgrades r s1"
    using x by (simp add: setLevel_registered [OF u] s1_def)
  from Cons.prems x have dist: "distinct (map fst r)" and fresh: "map_of r k = None"
    by (auto simp: map_of_eq_None_iff)
  have reg: "\<forall>uid\<in>fst ` set r. map_of (upgrades s1) uid \<noteq> None"
    using Cons.prems(2) by (auto simp: s1_def update_conv')
  from Cons.IH [OF dist reg] obtain us where
    r: "restore_upgrades r s1 = (Inr (), s1\<lparr>upgrades := us\<rparr>)" and
    l: "\<And>uid. map_of us uid =
              (case map_of r uid of
                 None \<Rightarrow> map_of (upgrades s1) uid
               | Some lvl \<Rightarrow> map_option (\<lambda>u. u\<lparr>level := max 0 lvl\<rparr>) (map_of (upgrades s1) uid))"
    by blast
  have eq: "s1\<lparr>upgrades := us\<rparr> = s\<lparr>upgrades := us\<rparr>"
    by (simp add: s1_def)
  have "map_of us uid =
          (case map_of (x # r) uid of
             None \<Rightarrow> map_of (upgrades s) uid
           | Some lvl \<Rightarrow> map_option (\<lambda>u. u\<lparr>level := max 0 lvl\<rparr>) (map_of (upgrades s) uid))" for uid
    using l [of uid] x fresh u
    by (cases "uid = k") (auto simp: s1_def update_conv' split: option.splits)
  with step r eq show ?case by auto
qed

lemma deserialize_achievements_effect:
  assumes "distinct (map fst r)"
  shows "\<exists>as. deserialize_achievements r s = s\<lparr>achievements := as\<rparr> \<and>
           (\<forall>aid. map_of as aid =
              (case map_of r aid of
                 None \<Rightarrow> map_of (achievements s) aid
               | Some (u, p) \<Rightarrow>
                   map_option (\<lambda>a. a\<lparr>unlocked := u, progress := p\<rparr>) (map_of (achievements s) aid)))"
  using assms
proof (induction r arbitrary: s)
  case Nil
  show ?case
    by (intro exI [of _ "achievements s"]) simp
next
  case (Cons x r)
  obtain k u p where x: "x = (k, u, p)" by (cases x)
  define s1 where "s1 = (case map_of (achievements s) k of
          None \<Rightarrow> s
        | Some achievement \<Rightarrow>
            s\<lparr>achievements :=
                AList.update k (achievement\<lparr>unlocked := u, progress := p\<rparr>) (achievements s)\<rparr>)"
  have step: "deserialize_achievements (x # r) s = deserialize_achievements r s1"
    using x by (simp add: s1_def)
  from Cons.prems x have dist: "distinct (map fst r)" and fresh: "map_of r k = None"
    by (auto simp: map_of_eq_None_iff)
  from Cons.IH [OF dist] obtain as where
    r: "deserialize_achievements r s1 = s1\<lparr>achievements := as\<rparr>" and
    l: "\<And>aid. map_of as aid =
              (case map_of r aid of
                 None \<Rightarrow> map_of (achievements s1) aid
               | Some (u, p) \<Rightarrow>
                   map_option (\<lambda>a. a\<lparr>unlocked := u, progress := p\<rparr>) (map_of (achievements s1) aid))"
    by blast
  have eq: "s1\<lparr>achievements := as\<rparr> = s\<lparr>achievements := as\<rparr>"
    by (simp add: s1_def split: option.splits)
  have "map_of as aid =
          (case map_of (x # r) aid of
             None \<Rightarrow> map_of (achievements s) aid
           | Some (u, p) \<Rightarrow>
               map_option (\<lambda>a. a\<lparr>unlocked := u, progress := p\<rparr>) (map_of (achievements s) aid))" for aid
    using l [of aid] x fresh
    by (cases "aid = k") (auto simp: s1_def update_conv' split: option.splits)
  with step r eq show ?case by auto
qed

lemma switchTo_registered:
  assumes "map_of (paradigms s) pid \<noteq> None"
  shows "\<exists>ps ev. switchTo pid s =
           (Inr (), s\<lparr>paradigms := ps, currentParadigm := Some pid, events := ev\<rparr>) \<and>
           map_option active (map_of ps pid) = Some True"
proof -
  define s1 where "s1 = (if truthy (currentParadigm s)
                      then (case map_of (paradigms s) (the (currentParadigm s)) of
                              None \<Rightarrow> s
                            | Some current \<Rightarrow>
                                s\<lparr>paradigms := AList.update (the (currentParadigm s))
                                                  (current\<lparr>active := False\<rparr>) (paradigms s)\<rparr>)
                      else s)"
  have reg: "map_of (paradigms s1) pid \<noteq> None"
    using assms by (auto simp: s1_def update_conv' split: option.splits)
  then obtain np where np: "map_of (paradigms s1) pid = Some np" by auto
  have s1: "s1 = s\<lparr>paradigms := paradigms s1\<rparr>"
    by (simp add: s1_def split: option.splits)
  have "switchTo pid s =
          (Inr (), emit (PARADIGM_CHANGED pid (p_name np) (productionMultiplier np))
             (s1\<lparr>paradigms := AList.update pid (np\<lparr>active := True\<rparr>) (paradigms s1),
                 currentParadigm := Some pid\<rparr>))"
    using assms np unfolding switchTo_def s1_def [symmetric] by (simp add: Let_def)
  also have "emit (PARADIGM_CHANGED pid (p_name np) (productionMultiplier np))
             (s1\<lparr>paradigms := AList.update pid (np\<lparr>active := True\<rparr>) (paradigms s1),
                 currentParadigm := Some pid\<rparr>) =
        s\<lparr>paradigms := AList.update pid (np\<lparr>active := True\<rparr>) (paradigms s1),
          currentParadigm := Some pid,
          events := events s @ [PARADIGM_CHANGED pid (p_name np) (productionMultiplier np)]\<rparr>"
    by (subst s1) (simp add: emit_def s1_def split: option.splits)
  finally show ?thesis
    by (auto simp: update_conv')
qed


lemma snapshot_fields:
  "gs_currencies (fst (snapshot cs now s)) = getAllAsRecord s"
  "gs_upgrades (fst (snapshot cs now s)) = getAsRecord s"
  "gs_currentParadigm (fst (snapshot cs now s)) =
     (case getCurrent s of None \<Rightarrow> ''default'' | Some c \<Rightarrow> p_id c)"
  "gs_achievements (fst (snapshot cs now s)) = Some (serialize_achievements s)"
  "gs_statistics (fst (snapshot cs now s)) = Some (fst (serialize_statistics now s))"
  "custom (fst (snapshot cs now s)) = cs"
  "timestamp (fst (snapshot cs now s)) = now"
  by (simp_all add: snapshot_def Let_def split: prod.splits)

lemma save_stores:
  "map_of (storage (save key cs now s)) key = Some (fst (snapshot cs now s))"
  by (simp add: save_def emit_def update_conv' Let_def split: prod.splits)

text \<open>
  What \<open>load\<close> does with a snapshot of \<open>s\<close> that is stored in \<open>s'\<close>, when the
  currencies and upgrades that the snapshot lists are registered in \<open>s'\<close>: it returns the
  snapshot; an entry that the snapshot lists gets the clamped value of snapshot time and
  every other entry is left as it is in \<open>s'\<close>; the paradigm id of the snapshot becomes
  the current one if it is not empty and registered, and otherwise the current id of
  \<open>s'\<close> stays.
\<close>

lemma load_effect:
  assumes keys_c: "distinct (map fst (currencies s))"
      and keys_u: "distinct (map fst (upgrades s))"
      and keys_a: "distinct (map fst (achievements s))"
      and stored: "map_of (storage s') key = Some (fst (snapshot cs now s))"
      and reg_c: "\<forall>cid\<in>fst ` set (currencies s) - {''__proto__''}. map_of (currencies s') cid \<noteq> None"
      and reg_u: "\<forall>uid\<in>fst ` set (upgrades s) - {''__proto__''}. map_of (upgrades s') uid \<noteq> None"
  shows "fst (load key now' s') = Some (fst (snapshot cs now s))"
    and "map_of (currencies (snd (load key now' s'))) cid =
            (case (if cid = ''__proto__'' then None else map_of (currencies s) cid) of
               None \<Rightarrow> map_of (currencies s') cid
             | Some c \<Rightarrow>
                 map_option (\<lambda>c'. c'\<lparr>amount := max 0 (amount c)\<rparr>) (map_of (currencies s') cid))"
    and "map_of (upgrades (snd (load key now' s'))) uid =
            (case (if uid = ''__proto__'' then None else map_of (upgrades s) uid) of
               None \<Rightarrow> map_of (upgrades s') uid
             | Some u \<Rightarrow>
                 map_option (\<lambda>u'. u'\<lparr>level := max 0 (level u)\<rparr>) (map_of (upgrades s') uid))"
    and "map_of (achievements (snd (load key now' s'))) aid =
            (case (if aid = ''__proto__'' then None else map_of (achievements s) aid) of
               None \<Rightarrow> map_of (achievements s') aid
             | Some a \<Rightarrow>
                 map_option (\<lambda>a'. a'\<lparr>unlocked := unlocked a, progress := progress a\<rparr>)
                   (map_of (achievements s') aid))"
    and "currentParadigm (snd (load key now' s')) =
           (if gs_currentParadigm (fst (snapshot cs now s)) \<noteq> [] \<and>
               isAvailable (gs_currentParadigm (fst (snapshot cs now s))) s'
            then Some (gs_currentParadigm (fst (snapshot cs now s)))
            else currentParadigm s')"
    and "gs_currentParadigm (fst (snapshot cs now s)) \<noteq> [] \<and>
          isAvailable (gs_currentParadigm (fst (snapshot cs now s))) s' \<Longrightarrow>
            map_option active
              (map_of (paradigms (snd (load key now' s')))
                 (gs_currentParadigm (fst (snapshot cs now s)))) = Some True"
proof -
  define st where "st = fst (snapshot cs now s)"
  define saved_c where "saved_c = filter (\<lambda>(cid, c). cid \<noteq> ''__proto__'') (currencies s)"
  define saved_u where "saved_u = filter (\<lambda>(uid, u). uid \<noteq> ''__proto__'') (upgrades s)"
  define saved_a where "saved_a = filter (\<lambda>(aid, a). aid \<noteq> ''__proto__'') (achievements s)"
  have st_c: "gs_currencies st = map (\<lambda>(cid, c). (cid, amount c)) saved_c"
    by (simp add: st_def snapshot_fields getAllAsRecord_distinct [OF keys_c] saved_c_def)
  have st_u: "gs_upgrades st = map (\<lambda>(uid, u). (uid, level u)) saved_u"
    by (simp add: st_def snapshot_fields getAsRecord_distinct [OF keys_u] saved_u_def)
  have st_a: "gs_achievements st =
                Some (map (\<lambda>(aid, a). (aid, unlocked a, progress a)) saved_a)"
    by (simp add: st_def snapshot_fields serialize_achievements_distinct [OF keys_a] saved_a_def)
  obtain stt where st_s: "gs_statistics st = Some stt"
    by (simp add: st_def snapshot_fields)
  have look: "map_of (storage s') key = Some st"
    by (simp add: stored st_def)
  have m_c: "map_of saved_c cid = (if cid = ''__proto__'' then None else map_of (currencies s) cid)"
    for cid
    unfolding saved_c_def by (rule map_of_filter_key)
  have m_u: "map_of saved_u uid = (if uid = ''__proto__'' then None else map_of (upgrades s) uid)"
    for uid
    unfolding saved_u_def by (rule map_of_filter_key)
  have m_a: "map_of saved_a aid = (if aid = ''__proto__'' then None else map_of (achievements s) aid)"
    for aid
    unfolding saved_a_def by (rule map_of_filter_key)
  \<comment> \<open>currencies\<close>
  have "distinct (map fst (gs_currencies st))"
    by (simp add: st_c fst_comp_values saved_c_def distinct_filter_key [OF keys_c])
  moreover have "\<forall>cid\<in>fst ` set (gs_currencies st). map_of (currencies s') cid \<noteq> None"
    using reg_c unfolding st_c keys_set_values saved_c_def keys_filter_key .
  ultimately obtain cs1 ev1 where
    r1: "restore_currencies (gs_currencies st) s' = (Inr (), s'\<lparr>currencies := cs1, events := ev1\<rparr>)" and
    l1: "\<And>cid. map_of cs1 cid =
              (case map_of (gs_currencies st) cid of
                 None \<Rightarrow> map_of (currencies s') cid
               | Some amt \<Rightarrow> map_option (\<lambda>c. c\<lparr>amount := max 0 amt\<rparr>) (map_of (currencies s') cid))"
    using restore_currencies_effect [of "gs_currencies st" s'] by blast
  define s1 where "s1 = s'\<lparr>currencies := cs1, events := ev1\<rparr>"
  \<comment> \<open>upgrades\<close>
  have "distinct (map fst (gs_upgrades st))"
    by (simp add: st_u fst_comp_values saved_u_def distinct_filter_key [OF keys_u])
  moreover have "\<forall>uid\<in>fst ` set (gs_upgrades st). map_of (upgrades s') uid \<noteq> None"
    using reg_u unfolding st_u keys_set_values saved_u_def keys_filter_key .
  then have "\<forall>uid\<in>fst ` set (gs_upgrades st). map_of (upgrades s1) uid \<noteq> None"
    by (simp add: s1_def)
  ultimately obtain us where
    r2: "restore_upgrades (gs_upgrades st) s1 = (Inr (), s1\<lparr>upgrades := us\<rparr>)" and
    l2: "\<And>uid. map_of us uid =
              (case map_of (gs_upgrades st) uid of
                 None \<Rightarrow> map_of (upgrades s1) uid
               | Some lvl \<Rightarrow> map_option (\<lambda>u. u\<lparr>level := max 0 lvl\<rparr>) (map_of (upgrades s1) uid))"
    using restore_upgrades_effect [of "gs_upgrades st" s1] by blast
  define s2 where "s2 = s1\<lparr>upgrades := us\<rparr>"
  \<comment> \<open>paradigm\<close>
  define go where "go = (gs_currentParadigm st \<noteq> [] \<and> isAvailable (gs_currentParadigm st) s2)"
  have go_s': "go = (gs_currentParadigm st \<noteq> [] \<and> isAvailable (gs_currentParadigm st) s')"
    by (simp add: go_def isAvailable_def s2_def s1_def)
  have "\<exists>ps cp ev. (if go then switchTo (gs_currentParadigm st) s2 else (Inr (), s2)) =
           (Inr (), s2\<lparr>paradigms := ps, currentParadigm := cp, events := ev\<rparr>) \<and>
           cp = (if go then Some (gs_currentParadigm st) else currentParadigm s2) \<and>
           (go \<longrightarrow> map_option active (map_of ps (gs_currentParadigm st)) = Some True)"
  proof (cases go)
    case True
    then have "map_of (paradigms s2) (gs_currentParadigm st) \<noteq> None"
      by (simp add: go_def isAvailable_def)
    from switchTo_registered [OF this] True show ?thesis by auto
  next
    case False
    have "s2 = s2\<lparr>paradigms := paradigms s2, currentParadigm := currentParadigm s2, events := events s2\<rparr>"
      by simp
    with False show ?thesis by (metis (full_types))
  qed
  then obtain ps cp ev3 where
    r3: "(if go then switchTo (gs_currentParadigm st) s2 else (Inr (), s2)) =
           (Inr (), s2\<lparr>paradigms := ps, currentParadigm := cp, events := ev3\<rparr>)" and
    l3: "cp = (if go then Some (gs_currentParadigm st) else currentParadigm s2)" and
    l3a: "go \<Longrightarrow> map_option active (map_of ps (gs_currentParadigm st)) = Some True"
    by blast
  define s3 where "s3 = s2\<lparr>paradigms := ps, currentParadigm := cp, events := ev3\<rparr>"
  \<comment> \<open>achievements\<close>
  have "distinct (map fst (map (\<lambda>(aid, a). (aid, unlocked a, progress a)) saved_a))"
    by (simp add: fst_comp_values saved_a_def distinct_filter_key [OF keys_a])
  then obtain as where
    r4: "deserialize_achievements (map (\<lambda>(aid, a). (aid, unlocked a, progress a)) saved_a) s3 =
           s3\<lparr>achievements := as\<rparr>" and
    l4: "\<And>aid. map_of as aid =
              (case map_of (map (\<lambda>(aid, a). (aid, unlocked a, progress a)) saved_a) aid of
                 None \<Rightarrow> map_of (achievements s3) aid
               | Some (u, p) \<Rightarrow>
                   map_option (\<lambda>a. a\<lparr>unlocked := u, progress := p\<rparr>) (map_of (achievements s3) aid))"
    using deserialize_achievements_effect [of _ s3] by blast
  define s5 where "s5 = emit (STATE_LOADED key (timestamp st))
                          (deserialize_statistics stt now' (s3\<lparr>achievements := as\<rparr>))"
  have ld: "load key now' s' = (Some st, s5)"
    unfolding load_def
    by (simp add: look r1 s1_def [symmetric] r2 s2_def [symmetric] go_def [symmetric] r3
          s3_def [symmetric] st_a r4 st_s s5_def Let_def)
  have f_c: "currencies s5 = cs1" and f_u: "upgrades s5 = us" and f_p: "currentParadigm s5 = cp"
    and f_ps: "paradigms s5 = ps" and f_a: "achievements s5 = as"
    by (simp_all add: s5_def emit_def deserialize_statistics_def s3_def s2_def s1_def)
  have c: "map_of (currencies s5) cid =
            (case (if cid = ''__proto__'' then None else map_of (currencies s) cid) of
               None \<Rightarrow> map_of (currencies s') cid
             | Some c \<Rightarrow>
                 map_option (\<lambda>c'. c'\<lparr>amount := max 0 (amount c)\<rparr>) (map_of (currencies s') cid))"
    for cid
    by (simp add: f_c l1 st_c map_of_map_values m_c split: option.splits)
  have u: "map_of (upgrades s5) uid =
            (case (if uid = ''__proto__'' then None else map_of (upgrades s) uid) of
               None \<Rightarrow> map_of (upgrades s') uid
             | Some u \<Rightarrow>
                 map_option (\<lambda>u'. u'\<lparr>level := max 0 (level u)\<rparr>) (map_of (upgrades s') uid))"
    for uid
    by (simp add: f_u l2 st_u map_of_map_values m_u s1_def split: option.splits)
  have a: "map_of (achievements s5) aid =
            (case (if aid = ''__proto__'' then None else map_of (achievements s) aid) of
               None \<Rightarrow> map_of (achievements s') aid
             | Some a \<Rightarrow>
                 map_option (\<lambda>a'. a'\<lparr>unlocked := unlocked a, progress := progress a\<rparr>)
                   (map_of (achievements s') aid))"
    for aid
    by (simp add: f_a l4 map_of_map_values m_a s3_def s2_def s1_def split: option.splits)
  have p: "currentParadigm s5 =
             (if gs_currentParadigm st \<noteq> [] \<and> isAvailable (gs_currentParadigm st) s'
              then Some (gs_currentParadigm st) else currentParadigm s')"
    by (simp add: f_p l3 go_s' s2_def s1_def)
  have pa: "map_option active (map_of (paradigms s5) (gs_currentParadigm st)) = Some True"
    if "gs_currentParadigm st \<noteq> [] \<and> isAvailable (gs_currentParadigm st) s'"
    using that l3a by (simp add: go_s' f_ps)
  show "fst (load key now' s') = Some (fst (snapshot cs now s))"
    by (simp add: ld st_def)
  show "map_of (currencies (snd (load key now' s'))) cid =
            (case (if cid = ''__proto__'' then None else map_of (currencies s) cid) of
               None \<Rightarrow> map_of (currencies s') cid
             | Some c \<Rightarrow>
                 map_option (\<lambda>c'. c'\<lparr>amount := max 0 (amount c)\<rparr>) (map_of (currencies s') cid))"
    using c [of cid] by (simp add: ld)
  show "map_of (upgrades (snd (load key now' s'))) uid =
            (case (if uid = ''__proto__'' then None else map_of (upgrades s) uid) of
               None \<Rightarrow> map_of (upgrades s') uid
             | Some u \<Rightarrow>
                 map_option (\<lambda>u'. u'\<lparr>level := max 0 (level u)\<rparr>) (map_of (upgrades s') uid))"
    using u [of uid] by (simp add: ld)
  show "map_of (achievements (snd (load key now' s'))) aid =
            (case (if aid = ''__proto__'' then None else map_of (achievements s) aid) of
               None \<Rightarrow> map_of (achievements s') aid
             | Some a \<Rightarrow>
                 map_option (\<lambda>a'. a'\<lparr>unlocked := unlocked a, progress := progress a\<rparr>)
                   (map_of (achievements s') aid))"
    using a [of aid] by (simp add: ld)
  show "currentParadigm (snd (load key now' s')) =
           (if gs_currentParadigm (fst (snapshot cs now s)) \<noteq> [] \<and>
               isAvailable (gs_currentParadigm (fst (snapshot cs now s))) s'
            then Some (gs_currentParadigm (fst (snapshot cs now s)))
            else currentParadigm s')"
    using p unfolding st_def by (simp add: ld)
  show "map_option active
              (map_of (paradigms (snd (load key now' s')))
                 (gs_currentParadigm (fst (snapshot cs now s)))) = Some True"
    if "gs_currentParadigm (fst (snapshot cs now s)) \<noteq> [] \<and>
          isAvailable (gs_currentParadigm (fst (snapshot cs now s))) s'"
    using pa that unfolding st_def by (simp add: ld)
qed


text \<open>The paradigm map keeps every paradigm under its own id.\<close>

lemma update_set_cases:
  "(i, p) \<in> set (AList.update k v al) \<Longrightarrow> (i, p) = (k, v) \<or> (i, p) \<in> set al"
  by (induction al) (auto split: if_splits)

lemma paradigms_keyed_new_engine: "paradigms_keyed (new_engine now)"
  by (simp add: paradigms_keyed_def new_engine_def)

lemma paradigms_keyed_update:
  assumes "paradigms_keyed s" and "p_id v = k"
  shows "paradigms_keyed (s\<lparr>paradigms := AList.update k v (paradigms s)\<rparr>)"
  using assms by (auto simp: paradigms_keyed_def dest!: update_set_cases)

lemma paradigms_keyed_addParadigm:
  assumes "paradigms_keyed s"
  shows "paradigms_keyed (snd (addParadigm p s))"
proof -
  have k: "\<forall>(i, q)\<in>set (AList.update (p_id p) v (paradigms s)). p_id q = i"
    if "p_id v = p_id p" for v
    using paradigms_keyed_update [OF assms that] by (simp add: paradigms_keyed_def)
  have "p_id (p\<lparr>active := False\<rparr>) = p_id p"
    by simp
  from assms k [OF refl] k [OF this] show ?thesis
    by (simp add: addParadigm_def Let_def paradigms_keyed_def)
qed

lemma paradigms_keyed_switchTo:
  assumes "paradigms_keyed s"
  shows "paradigms_keyed (snd (switchTo pid s))"
proof -
  define s1 where "s1 = (if truthy (currentParadigm s)
                      then (case map_of (paradigms s) (the (currentParadigm s)) of
                              None \<Rightarrow> s
                            | Some current \<Rightarrow>
                                s\<lparr>paradigms := AList.update (the (currentParadigm s))
                                                  (current\<lparr>active := False\<rparr>) (paradigms s)\<rparr>)
                      else s)"
  have k1: "paradigms_keyed s1"
  proof (cases "truthy (currentParadigm s)")
    case False
    with assms show ?thesis by (simp add: s1_def)
  next
    case True
    show ?thesis
    proof (cases "map_of (paradigms s) (the (currentParadigm s))")
      case None
      with True assms show ?thesis by (simp add: s1_def)
    next
      case (Some current)
      then have "(the (currentParadigm s), current) \<in> set (paradigms s)"
        by (rule map_of_SomeD)
      with assms have "p_id (current\<lparr>active := False\<rparr>) = the (currentParadigm s)"
        by (auto simp: paradigms_keyed_def)
      with assms have "paradigms_keyed (s\<lparr>paradigms := AList.update (the (currentParadigm s))
                                                  (current\<lparr>active := False\<rparr>) (paradigms s)\<rparr>)"
        by (rule paradigms_keyed_update)
      with True Some show ?thesis by (simp add: s1_def)
    qed
  qed
  have k2: "paradigms_keyed (snd (case map_of (paradigms s1) pid of
                  None \<Rightarrow> (Inl (ParadigmMissing pid), s1)
                | Some newParadigm \<Rightarrow>
                    (let newParadigm' = newParadigm\<lparr>active := True\<rparr>;
                         s2 = s1\<lparr>paradigms := AList.update pid newParadigm' (paradigms s1),
                                currentParadigm := Some pid\<rparr>
                     in (Inr (),
                         emit (PARADIGM_CHANGED pid (p_name newParadigm')
                                 (productionMultiplier newParadigm')) s2))))"
  proof (cases "map_of (paradigms s1) pid")
    case None
    with k1 show ?thesis by simp
  next
    case (Some np)
    then have "(pid, np) \<in> set (paradigms s1)"
      by (rule map_of_SomeD)
    with k1 have "p_id (np\<lparr>active := True\<rparr>) = pid"
      by (auto simp: paradigms_keyed_def)
    with k1 have "paradigms_keyed (s1\<lparr>paradigms := AList.update pid (np\<lparr>active := True\<rparr>) (paradigms s1)\<rparr>)"
      by (rule paradigms_keyed_update)
    with Some show ?thesis
      by (simp add: Let_def emit_def paradigms_keyed_def)
  qed
  show ?thesis
    unfolding switchTo_def s1_def [symmetric] Let_def
    using assms k2 [unfolded Let_def] by simp
qed

lemma getCurrent_keyed:
  assumes "paradigms_keyed s" and "getCurrent s = Some p"
  shows "currentParadigm s = Some (p_id p)" and "p_id p \<noteq> []"
proof -
  from assms(2) have t: "truthy (currentParadigm s)"
    by (simp add: getCurrent_def split: if_splits)
  then obtain c where c: "currentParadigm s = Some c" and ne: "c \<noteq> []"
    by (auto simp: truthy_def split: option.splits)
  with assms(2) t have "map_of (paradigms s) c = Some p"
    by (simp add: getCurrent_def)
  then have "(c, p) \<in> set (paradigms s)"
    by (rule map_of_SomeD)
  with assms(1) have "p_id p = c"
    by (auto simp: paradigms_keyed_def)
  with c ne show "currentParadigm s = Some (p_id p)" and "p_id p \<noteq> []"
    by simp_all
qed


text \<open>
  Claim C4, amended: take an engine state whose currency amounts and upgrade levels are
  all non-negative, save a snapshot of it, and load that snapshot, right away or later,
  into an engine state in which it is still stored and in which the currencies and
  upgrades of snapshot time are still registered. Then \<open>load\<close> returns the snapshot,
  and every currency amount, every upgrade level, the current paradigm id, and the
  unlocked flag and the progress of every achievement that is still registered are again
  those of snapshot time, provided that

  \<^item> an entry registered under the id \<open>__proto__\<close>, which no snapshot holds, has at load
    time the amount, level, or flag and progress of snapshot time;

  \<^item> the paradigm that \<open>getCurrent\<close> returned at snapshot time is still registered, and
    then it is active after the load;

  \<^item> if \<open>getCurrent\<close> returned nothing at snapshot time (no paradigm was current, or the
    current id was the empty string), no paradigm is registered under the id \<open>default\<close>
    at load time and the current paradigm id is the one of snapshot time.

  All three hold for a load right after the save, where \<open>s' = save key cs now s\<close>, except
  when \<open>getCurrent\<close> returns nothing and a paradigm is registered under \<open>default\<close>. Map
  keys are unique and every paradigm is stored under its own id, as in the engine's maps.
\<close>

theorem save_load_roundtrip:
  assumes keys_c: "distinct (map fst (currencies s))"
      and keys_u: "distinct (map fst (upgrades s))"
      and keys_a: "distinct (map fst (achievements s))"
      and keyed: "paradigms_keyed s"
      and amounts: "\<forall>(cid, c)\<in>set (currencies s). 0 \<le> amount c"
      and levels: "\<forall>(uid, u)\<in>set (upgrades s). 0 \<le> level u"
      and stored: "map_of (storage s') key = map_of (storage (save key cs now s)) key"
      and reg_c: "\<forall>cid\<in>fst ` set (currencies s). map_of (currencies s') cid \<noteq> None"
      and reg_u: "\<forall>uid\<in>fst ` set (upgrades s). map_of (upgrades s') uid \<noteq> None"
      and proto_c: "\<forall>c. map_of (currencies s) ''__proto__'' = Some c \<longrightarrow>
                      get ''__proto__'' s' = amount c"
      and proto_u: "\<forall>u. map_of (upgrades s) ''__proto__'' = Some u \<longrightarrow>
                      map_option level (map_of (upgrades s') ''__proto__'') = Some (level u)"
      and proto_a: "\<forall>a a'. map_of (achievements s) ''__proto__'' = Some a \<and>
                      map_of (achievements s') ''__proto__'' = Some a' \<longrightarrow>
                      unlocked a' = unlocked a \<and> progress a' = progress a"
      and cur_reg: "\<forall>p. getCurrent s = Some p \<longrightarrow> isAvailable (p_id p) s'"
      and cur_none: "getCurrent s = None \<longrightarrow>
                      \<not> isAvailable ''default'' s' \<and> getCurrentId s' = getCurrentId s"
  shows "fst (load key now' s') = Some (fst (snapshot cs now s)) \<and>
         (\<forall>cid c. map_of (currencies s) cid = Some c \<longrightarrow>
            get cid (snd (load key now' s')) = amount c) \<and>
         (\<forall>uid u. map_of (upgrades s) uid = Some u \<longrightarrow>
            map_option level (map_of (upgrades (snd (load key now' s'))) uid) = Some (level u)) \<and>
         getCurrentId (snd (load key now' s')) = getCurrentId s \<and>
         (\<forall>p. getCurrent s = Some p \<longrightarrow>
            map_option active (map_of (paradigms (snd (load key now' s'))) (p_id p)) = Some True) \<and>
         (\<forall>aid a a'. map_of (achievements s) aid = Some a \<and> map_of (achievements s') aid = Some a' \<longrightarrow>
            map_of (achievements (snd (load key now' s'))) aid =
              Some (a'\<lparr>unlocked := unlocked a, progress := progress a\<rparr>))"
proof -
  define after where "after = snd (load key now' s')"
  have st: "map_of (storage s') key = Some (fst (snapshot cs now s))"
    by (simp add: stored save_stores)
  have rc: "\<forall>cid\<in>fst ` set (currencies s) - {''__proto__''}. map_of (currencies s') cid \<noteq> None"
    using reg_c by blast
  have ru: "\<forall>uid\<in>fst ` set (upgrades s) - {''__proto__''}. map_of (upgrades s') uid \<noteq> None"
    using reg_u by blast
  note e = load_effect [OF keys_c keys_u keys_a st rc ru, of now', folded after_def]
  have c: "get cid after = amount c" if "map_of (currencies s) cid = Some c" for cid c
  proof (cases "cid = ''__proto__''")
    case True
    with that proto_c have "get ''__proto__'' s' = amount c" by simp
    with True e(2) [of cid] show ?thesis by (simp add: get_def)
  next
    case False
    from that have "(cid, c) \<in> set (currencies s)" by (rule map_of_SomeD)
    with amounts have nn: "0 \<le> amount c" by auto
    from that reg_c obtain c' where "map_of (currencies s') cid = Some c'"
      by (force dest: map_of_SomeD)
    with that nn False e(2) [of cid] show ?thesis
      by (simp add: get_def)
  qed
  have u: "map_option level (map_of (upgrades after) uid) = Some (level u)"
    if "map_of (upgrades s) uid = Some u" for uid u
  proof (cases "uid = ''__proto__''")
    case True
    with that proto_u
    have "map_option level (map_of (upgrades s') ''__proto__'') = Some (level u)" by simp
    with True e(3) [of uid] show ?thesis by simp
  next
    case False
    from that have "(uid, u) \<in> set (upgrades s)" by (rule map_of_SomeD)
    with levels have nn: "0 \<le> level u" by auto
    from that reg_u obtain u' where "map_of (upgrades s') uid = Some u'"
      by (force dest: map_of_SomeD)
    with that nn False e(3) [of uid] show ?thesis
      by simp
  qed
  have p: "getCurrentId after = getCurrentId s"
  proof (cases "getCurrent s")
    case None
    then have "gs_currentParadigm (fst (snapshot cs now s)) = ''default''"
      by (simp add: snapshot_fields)
    with None cur_none e(5) show ?thesis
      by (simp add: getCurrentId_def)
  next
    case (Some p)
    then have "gs_currentParadigm (fst (snapshot cs now s)) = p_id p"
      by (simp add: snapshot_fields)
    with Some cur_reg getCurrent_keyed [OF keyed Some] e(5) show ?thesis
      by (simp add: getCurrentId_def)
  qed
  have pa: "map_option active (map_of (paradigms after) (p_id p)) = Some True"
    if "getCurrent s = Some p" for p
  proof -
    from that have "gs_currentParadigm (fst (snapshot cs now s)) = p_id p"
      by (simp add: snapshot_fields)
    with that cur_reg getCurrent_keyed [OF keyed that] e(6) show ?thesis
      by simp
  qed
  have a: "map_of (achievements after) aid = Some (a'\<lparr>unlocked := unlocked a, progress := progress a\<rparr>)"
    if "map_of (achievements s) aid = Some a" "map_of (achievements s') aid = Some a'" for aid a a'
  proof (cases "aid = ''__proto__''")
    case True
    with that proto_a have "unlocked a' = unlocked a \<and> progress a' = progress a" by blast
    then have "a'\<lparr>unlocked := unlocked a, progress := progress a\<rparr> = a'" by simp
    with True that e(4) [of aid] show ?thesis by simp
  next
    case False
    with that e(4) [of aid] show ?thesis by simp
  qed
  from e(1) c u p pa a show ?thesis
    unfolding after_def by simp
qed


text \<open>The example engines, field by field.\<close>

lemma shop_other_fields:
  "paradigms (shop g) = []"
  "currentParadigm (shop g) = None"
  "achievements (shop g) = []"
  by (simp_all add: shop_def addCurrency_def addUpgrade_def new_engine_def emit_def)

lemma engine_full_fields:
  "currencies engine_full = [(''gold'', gold\<lparr>amount := 150\<rparr>)]"
  "upgrades engine_full = [(''click-power'', click_power)]"
  "paradigms engine_full = [(''double'', double_paradigm)]"
  "currentParadigm engine_full = Some ''double''"
  "achievements engine_full = [(''first-click'', first_click)]"
  by (simp_all add: engine_full_def addAchievement_def addParadigm_def shop_fields
        shop_other_fields Let_def double_paradigm_def first_click_def)

lemma save_fields:
  "currencies (save key cs now s) = currencies s"
  "upgrades (save key cs now s) = upgrades s"
  "paradigms (save key cs now s) = paradigms s"
  "currentParadigm (save key cs now s) = currentParadigm s"
  "achievements (save key cs now s) = achievements s"
  by (simp_all add: save_def snapshot_def serialize_statistics_def updateTimePlayed_def emit_def
        Let_def split: prod.splits)

lemma purchase_registered:
  assumes "map_of (upgrades s) upgradeId = Some upgrade"
      and "map_of (currencies s) (currencyId upgrade) = Some currency"
      and "amount currency \<ge> calculateCost pw upgrade"
  shows "purchase pw upgradeId s =
           (Inr True,
            s\<lparr>currencies := AList.update (currencyId upgrade)
                               (currency\<lparr>amount := amount currency - calculateCost pw upgrade\<rparr>)
                               (currencies s),
              upgrades := AList.update upgradeId
                            (upgrade\<lparr>level := level upgrade + 1, purchased := True\<rparr>) (upgrades s),
              events := events s @
                [CURRENCY_CHANGED (currencyId upgrade) (amount currency)
                   (amount currency - calculateCost pw upgrade) (- calculateCost pw upgrade),
                 UPGRADE_PURCHASED upgradeId (level upgrade + 1) (calculateCost pw upgrade),
                 UPGRADE_LEVELED upgradeId (level upgrade + 1) (effect upgrade)]\<rparr>)"
  using assms
  by (simp add: purchase_def has_def get_def subtract_def emit_def Let_def max_def)

lemma bought_eq:
  "snd (purchase pow_rounded ''click-power'' engine_saved) =
     engine_saved\<lparr>currencies := [(''gold'', gold\<lparr>amount := 50\<rparr>)],
                  upgrades := [(''click-power'', click_power\<lparr>level := 1, purchased := True\<rparr>)],
                  events := events engine_saved @
                    [CURRENCY_CHANGED ''gold'' 150 50 (- 100),
                     UPGRADE_PURCHASED ''click-power'' 1 100,
                     UPGRADE_LEVELED ''click-power'' 1 double_1_1]\<rparr>"
proof -
  have h1: "map_of (upgrades engine_saved) ''click-power'' = Some click_power"
    by (simp add: engine_saved_def save_fields engine_full_fields)
  have h2: "map_of (currencies engine_saved) (currencyId click_power) = Some (gold\<lparr>amount := 150\<rparr>)"
    by (simp add: engine_saved_def save_fields engine_full_fields click_power_def)
  have h3: "amount (gold\<lparr>amount := 150\<rparr>) \<ge> calculateCost pow_rounded click_power"
    by (simp add: calculateCost_click_power)
  have c: "currencies engine_saved = [(''gold'', gold\<lparr>amount := 150\<rparr>)]"
    and u: "upgrades engine_saved = [(''click-power'', click_power)]"
    by (simp_all add: engine_saved_def save_fields engine_full_fields)
  show ?thesis
    by (simp add: purchase_registered [OF h1 h2 h3] calculateCost_click_power c u)
       (simp add: click_power_def)
qed


lemma engine_saved_fields:
  "paradigms engine_saved = [(''double'', double_paradigm)]"
  "currentParadigm engine_saved = Some ''double''"
  "achievements engine_saved = [(''first-click'', first_click)]"
  "map_of (storage engine_saved) ''game-state'' = Some (fst (snapshot None 1 engine_full))"
  by (simp_all add: engine_saved_def save_fields engine_full_fields save_stores)

lemma two_paradigms_eq:
  "snd (addParadigm prestige (snd (purchase pow_rounded ''click-power'' engine_saved))) =
     (snd (purchase pow_rounded ''click-power'' engine_saved))
       \<lparr>paradigms := [(''double'', double_paradigm), (''prestige'', prestige)]\<rparr>"
proof -
  define b where "b = snd (purchase pow_rounded ''click-power'' engine_saved)"
  have c: "currentParadigm b = Some ''double''" "paradigms b = [(''double'', double_paradigm)]"
    by (simp_all add: b_def bought_eq engine_saved_fields)
  show ?thesis
    unfolding b_def [symmetric]
    by (simp add: addParadigm_def Let_def c prestige_def)
qed

lemma switched_eq:
  "snd (switchTo ''prestige'' (snd (addParadigm prestige (snd (purchase pow_rounded ''click-power'' engine_saved))))) =
     (snd (purchase pow_rounded ''click-power'' engine_saved))
       \<lparr>paradigms := [(''double'', double_paradigm\<lparr>active := False\<rparr>),
                      (''prestige'', prestige\<lparr>active := True\<rparr>)],
        currentParadigm := Some ''prestige'',
        events := events (snd (purchase pow_rounded ''click-power'' engine_saved)) @
                    [PARADIGM_CHANGED ''prestige'' ''Prestige Mode'' 1.5]\<rparr>"
proof -
  define b where "b = snd (purchase pow_rounded ''click-power'' engine_saved)"
  have e: "snd (addParadigm prestige b) =
             b\<lparr>paradigms := [(''double'', double_paradigm), (''prestige'', prestige)]\<rparr>"
    unfolding b_def by (rule two_paradigms_eq)
  have c: "currentParadigm b = Some ''double''"
    by (simp add: b_def bought_eq engine_saved_fields)
  show ?thesis
    unfolding b_def [symmetric] e
    by (simp add: switchTo_def truthy_def emit_def Let_def c prestige_def)
qed

lemma engine_played_fields:
  "currencies engine_played = [(''gold'', gold\<lparr>amount := 50\<rparr>)]"
  "upgrades engine_played = [(''click-power'', click_power\<lparr>level := 1, purchased := True\<rparr>)]"
  "paradigms engine_played =
     [(''double'', double_paradigm\<lparr>active := False\<rparr>), (''prestige'', prestige\<lparr>active := True\<rparr>)]"
  "currentParadigm engine_played = Some ''prestige''"
  "achievements engine_played = [(''first-click'', first_click\<lparr>unlocked := True, progress := 3\<rparr>)]"
  "map_of (storage engine_played) ''game-state'' = Some (fst (snapshot None 1 engine_full))"
proof -
  define b where "b = snd (purchase pow_rounded ''click-power'' engine_saved)"
  have b: "currencies b = [(''gold'', gold\<lparr>amount := 50\<rparr>)]"
    "upgrades b = [(''click-power'', click_power\<lparr>level := 1, purchased := True\<rparr>)]"
    "achievements b = [(''first-click'', first_click)]"
    "storage b = storage engine_saved"
    by (simp_all add: b_def bought_eq engine_saved_fields)
  have p: "engine_played =
             updateProgress ''first-click'' 5
               (b\<lparr>paradigms := [(''double'', double_paradigm\<lparr>active := False\<rparr>),
                                (''prestige'', prestige\<lparr>active := True\<rparr>)],
                  currentParadigm := Some ''prestige'',
                  events := events b @ [PARADIGM_CHANGED ''prestige'' ''Prestige Mode'' 1.5]\<rparr>)"
    by (simp add: engine_played_def switched_eq b_def)
  show "currencies engine_played = [(''gold'', gold\<lparr>amount := 50\<rparr>)]"
    "upgrades engine_played = [(''click-power'', click_power\<lparr>level := 1, purchased := True\<rparr>)]"
    "paradigms engine_played =
       [(''double'', double_paradigm\<lparr>active := False\<rparr>), (''prestige'', prestige\<lparr>active := True\<rparr>)]"
    "currentParadigm engine_played = Some ''prestige''"
    "achievements engine_played = [(''first-click'', first_click\<lparr>unlocked := True, progress := 3\<rparr>)]"
    "map_of (storage engine_played) ''game-state'' = Some (fst (snapshot None 1 engine_full))"
    by (simp_all add: p updateProgress_def unlockAchievement_def emit_def Let_def b
          engine_saved_fields first_click_def)
qed


lemma engine_paradigms_other_fields:
  "currencies engine_paradigms = []"
  "upgrades engine_paradigms = []"
  "achievements engine_paradigms = []"
  by (simp_all add: engine_paradigms_def addParadigm_def new_engine_def Let_def)

theorem save_load_roundtrip_witness:
  "currencies engine_full = [(''gold'', gold\<lparr>amount := 150\<rparr>)] \<and>
   upgrades engine_full = [(''click-power'', click_power)] \<and>
   achievements engine_full = [(''first-click'', first_click)] \<and>
   getCurrent engine_full = Some double_paradigm \<and>
   get ''gold'' engine_played = 50 \<and>
   map_option level (map_of (upgrades engine_played) ''click-power'') = Some 1 \<and>
   getCurrentId engine_played = Some ''prestige'' \<and>
   map_option unlocked (map_of (achievements engine_played) ''first-click'') = Some True \<and>
   fst (load ''game-state'' 2 engine_played) = Some (fst (snapshot None 1 engine_full)) \<and>
   get ''gold'' (snd (load ''game-state'' 2 engine_played)) = 150 \<and>
   map_option level (map_of (upgrades (snd (load ''game-state'' 2 engine_played))) ''click-power'') =
     Some 0 \<and>
   getCurrentId (snd (load ''game-state'' 2 engine_played)) = Some ''double'' \<and>
   map_option active (map_of (paradigms (snd (load ''game-state'' 2 engine_played))) ''double'') =
     Some True \<and>
   map_of (achievements (snd (load ''game-state'' 2 engine_played))) ''first-click'' =
     Some first_click \<and>
   getCurrent engine_paradigms = None \<and>
   getCurrentId engine_paradigms = Some '''' \<and>
   fst (load ''game-state'' 2 (save ''game-state'' None 1 engine_paradigms)) =
     Some (fst (snapshot None 1 engine_paradigms)) \<and>
   getCurrentId (snd (load ''game-state'' 2 (save ''game-state'' None 1 engine_paradigms))) =
     Some ''''"
proof -
  have h1: "distinct (map fst (currencies engine_full))"
    and h2: "distinct (map fst (upgrades engine_full))"
    and h3: "distinct (map fst (achievements engine_full))"
    and h4: "paradigms_keyed engine_full"
    and h5: "\<forall>(cid, c)\<in>set (currencies engine_full). 0 \<le> amount c"
    and h6: "\<forall>(uid, u)\<in>set (upgrades engine_full). 0 \<le> level u"
    by (simp_all add: engine_full_fields click_power_def paradigms_keyed_def double_paradigm_def)
  have h7: "map_of (storage engine_played) ''game-state'' =
              map_of (storage (save ''game-state'' None 1 engine_full)) ''game-state''"
    by (simp add: engine_played_fields save_stores)
  have h8: "\<forall>cid\<in>fst ` set (currencies engine_full). map_of (currencies engine_played) cid \<noteq> None"
    and h9: "\<forall>uid\<in>fst ` set (upgrades engine_full). map_of (upgrades engine_played) uid \<noteq> None"
    by (simp_all add: engine_full_fields engine_played_fields)
  have h10: "\<forall>c. map_of (currencies engine_full) ''__proto__'' = Some c \<longrightarrow>
               get ''__proto__'' engine_played = amount c"
    and h11: "\<forall>u. map_of (upgrades engine_full) ''__proto__'' = Some u \<longrightarrow>
               map_option level (map_of (upgrades engine_played) ''__proto__'') = Some (level u)"
    and h12: "\<forall>a a'. map_of (achievements engine_full) ''__proto__'' = Some a \<and>
               map_of (achievements engine_played) ''__proto__'' = Some a' \<longrightarrow>
               unlocked a' = unlocked a \<and> progress a' = progress a"
    by (simp_all add: engine_full_fields)
  have cur: "getCurrent engine_full = Some double_paradigm"
    by (simp add: getCurrent_def truthy_def engine_full_fields)
  have h13: "\<forall>p. getCurrent engine_full = Some p \<longrightarrow> isAvailable (p_id p) engine_played"
    by (simp add: cur isAvailable_def engine_played_fields double_paradigm_def)
  have h14: "getCurrent engine_full = None \<longrightarrow>
               \<not> isAvailable ''default'' engine_played \<and>
               getCurrentId engine_played = getCurrentId engine_full"
    by (simp add: cur)
  note rt = save_load_roundtrip [OF h1 h2 h3 h4 h5 h6 h7 h8 h9 h10 h11 h12 h13 h14, of 2]
  have before: "get ''gold'' engine_played = 50"
    "map_option level (map_of (upgrades engine_played) ''click-power'') = Some 1"
    "getCurrentId engine_played = Some ''prestige''"
    "map_option unlocked (map_of (achievements engine_played) ''first-click'') = Some True"
    by (simp_all add: get_def getCurrentId_def engine_played_fields click_power_def)
  from rt have r0: "fst (load ''game-state'' 2 engine_played) = Some (fst (snapshot None 1 engine_full))"
    by simp
  from rt have "map_of (currencies engine_full) ''gold'' = Some (gold\<lparr>amount := 150\<rparr>) \<longrightarrow>
      get ''gold'' (snd (load ''game-state'' 2 engine_played)) = amount (gold\<lparr>amount := 150\<rparr>)"
    by blast
  then have r1: "get ''gold'' (snd (load ''game-state'' 2 engine_played)) = 150"
    by (simp add: engine_full_fields)
  from rt have "map_of (upgrades engine_full) ''click-power'' = Some click_power \<longrightarrow>
      map_option level (map_of (upgrades (snd (load ''game-state'' 2 engine_played))) ''click-power'') =
        Some (level click_power)"
    by blast
  then have r2: "map_option level (map_of (upgrades (snd (load ''game-state'' 2 engine_played))) ''click-power'') = Some 0"
    by (simp add: engine_full_fields click_power_def)
  from rt have "getCurrentId (snd (load ''game-state'' 2 engine_played)) = getCurrentId engine_full"
    by blast
  then have r3: "getCurrentId (snd (load ''game-state'' 2 engine_played)) = Some ''double''"
    by (simp add: getCurrentId_def engine_full_fields)
  from rt have "getCurrent engine_full = Some double_paradigm \<longrightarrow>
      map_option active
        (map_of (paradigms (snd (load ''game-state'' 2 engine_played))) (p_id double_paradigm)) =
        Some True"
    by blast
  then have r3a: "map_option active
        (map_of (paradigms (snd (load ''game-state'' 2 engine_played))) ''double'') = Some True"
    by (simp add: cur double_paradigm_def)
  from rt have "map_of (achievements engine_full) ''first-click'' = Some first_click \<and>
      map_of (achievements engine_played) ''first-click'' =
        Some (first_click\<lparr>unlocked := True, progress := 3\<rparr>) \<longrightarrow>
      map_of (achievements (snd (load ''game-state'' 2 engine_played))) ''first-click'' =
        Some (first_click\<lparr>unlocked := True, progress := 3,
                unlocked := unlocked first_click, progress := progress first_click\<rparr>)"
    by blast
  then have r4: "map_of (achievements (snd (load ''game-state'' 2 engine_played))) ''first-click'' =
       Some first_click"
    by (simp add: engine_full_fields engine_played_fields)
  \<comment> \<open>a load right after the save, with the empty id current\<close>
  define e where "e = save ''game-state'' None 1 engine_paradigms"
  have e: "currencies e = []" "upgrades e = []" "achievements e = []"
    "paradigms e = [('''', base_paradigm), (''prestige'', prestige)]"
    "currentParadigm e = Some ''''"
    by (simp_all add: e_def save_fields engine_paradigms_fields engine_paradigms_other_fields)
  have g1: "distinct (map fst (currencies engine_paradigms))"
    and g2: "distinct (map fst (upgrades engine_paradigms))"
    and g3: "distinct (map fst (achievements engine_paradigms))"
    and g4: "paradigms_keyed engine_paradigms"
    and g5: "\<forall>(cid, c)\<in>set (currencies engine_paradigms). 0 \<le> amount c"
    and g6: "\<forall>(uid, u)\<in>set (upgrades engine_paradigms). 0 \<le> level u"
    by (simp_all add: engine_paradigms_fields engine_paradigms_other_fields paradigms_keyed_def
          base_paradigm_def prestige_def)
  have g7: "map_of (storage e) ''game-state'' =
              map_of (storage (save ''game-state'' None 1 engine_paradigms)) ''game-state''"
    by (simp add: e_def)
  have g8: "\<forall>cid\<in>fst ` set (currencies engine_paradigms). map_of (currencies e) cid \<noteq> None"
    and g9: "\<forall>uid\<in>fst ` set (upgrades engine_paradigms). map_of (upgrades e) uid \<noteq> None"
    and g10: "\<forall>c. map_of (currencies engine_paradigms) ''__proto__'' = Some c \<longrightarrow>
               get ''__proto__'' e = amount c"
    and g11: "\<forall>u. map_of (upgrades engine_paradigms) ''__proto__'' = Some u \<longrightarrow>
               map_option level (map_of (upgrades e) ''__proto__'') = Some (level u)"
    and g12: "\<forall>a a'. map_of (achievements engine_paradigms) ''__proto__'' = Some a \<and>
               map_of (achievements e) ''__proto__'' = Some a' \<longrightarrow>
               unlocked a' = unlocked a \<and> progress a' = progress a"
    by (simp_all add: engine_paradigms_other_fields)
  have none: "getCurrent engine_paradigms = None"
    by (simp add: getCurrent_def truthy_def engine_paradigms_fields)
  have g13: "\<forall>p. getCurrent engine_paradigms = Some p \<longrightarrow> isAvailable (p_id p) e"
    by (simp add: none)
  have g14: "getCurrent engine_paradigms = None \<longrightarrow>
               \<not> isAvailable ''default'' e \<and> getCurrentId e = getCurrentId engine_paradigms"
    by (simp add: isAvailable_def getCurrentId_def e engine_paradigms_fields)
  note im = save_load_roundtrip [OF g1 g2 g3 g4 g5 g6 g7 g8 g9 g10 g11 g12 g13 g14, of 2]
  from im have i0: "fst (load ''game-state'' 2 e) = Some (fst (snapshot None 1 engine_paradigms))"
    by blast
  from im have "getCurrentId (snd (load ''game-state'' 2 e)) = getCurrentId engine_paradigms"
    by blast
  then have i1: "getCurrentId (snd (load ''game-state'' 2 e)) = Some ''''"
    by (simp add: getCurrentId_def engine_paradigms_fields)
  have i2: "getCurrentId engine_paradigms = Some ''''"
    by (simp add: getCurrentId_def engine_paradigms_fields)
  from cur before r0 r1 r2 r3 r3a r4 none i0 i1 i2 show ?thesis
    unfolding e_def by (simp add: engine_full_fields)
qed

text \<open>
  Loading right after saving: the hypotheses on the state at load time hold by
  themselves, and the whole of every currency, upgrade and achievement is as before, the
  entries under \<open>__proto__\<close> included.
\<close>

lemma save_load_at_once:
  assumes keys_c: "distinct (map fst (currencies s))"
      and keys_u: "distinct (map fst (upgrades s))"
      and keys_a: "distinct (map fst (achievements s))"
      and keyed: "paradigms_keyed s"
      and amounts: "\<forall>(cid, c)\<in>set (currencies s). 0 \<le> amount c"
      and levels: "\<forall>(uid, u)\<in>set (upgrades s). 0 \<le> level u"
      and no_default: "getCurrent s = None \<longrightarrow> \<not> isAvailable ''default'' s"
  shows "fst (load key now' (save key cs now s)) = Some (fst (snapshot cs now s))"
    and "map_of (currencies (snd (load key now' (save key cs now s)))) = map_of (currencies s)"
    and "map_of (upgrades (snd (load key now' (save key cs now s)))) = map_of (upgrades s)"
    and "map_of (achievements (snd (load key now' (save key cs now s)))) = map_of (achievements s)"
    and "getCurrentId (snd (load key now' (save key cs now s))) = getCurrentId s"
proof -
  define s' where "s' = save key cs now s"
  have f: "currencies s' = currencies s" "upgrades s' = upgrades s"
    "achievements s' = achievements s" "paradigms s' = paradigms s"
    "currentParadigm s' = currentParadigm s"
    by (simp_all add: s'_def save_fields)
  have st: "map_of (storage s') key = Some (fst (snapshot cs now s))"
    by (simp add: s'_def save_stores)
  have rc: "\<forall>cid\<in>fst ` set (currencies s) - {''__proto__''}. map_of (currencies s') cid \<noteq> None"
    by (simp add: f map_of_eq_None_iff)
  have ru: "\<forall>uid\<in>fst ` set (upgrades s) - {''__proto__''}. map_of (upgrades s') uid \<noteq> None"
    by (simp add: f map_of_eq_None_iff)
  note e = load_effect [OF keys_c keys_u keys_a st rc ru, of now']
  show "fst (load key now' (save key cs now s)) = Some (fst (snapshot cs now s))"
    using e(1) by (simp add: s'_def)
  have "map_of (currencies (snd (load key now' s'))) cid = map_of (currencies s) cid" for cid
  proof (cases "map_of (currencies s) cid")
    case None
    with e(2) [of cid] show ?thesis
      by (cases "cid = ''__proto__''") (simp_all add: f)
  next
    case (Some c)
    then have "(cid, c) \<in> set (currencies s)" by (rule map_of_SomeD)
    with amounts have "0 \<le> amount c" by auto
    then have "c\<lparr>amount := max 0 (amount c)\<rparr> = c" by (simp add: max_def)
    with Some e(2) [of cid] show ?thesis
      by (cases "cid = ''__proto__''") (simp_all add: f)
  qed
  then show "map_of (currencies (snd (load key now' (save key cs now s)))) = map_of (currencies s)"
    unfolding s'_def by (rule ext)
  have "map_of (upgrades (snd (load key now' s'))) uid = map_of (upgrades s) uid" for uid
  proof (cases "map_of (upgrades s) uid")
    case None
    with e(3) [of uid] show ?thesis
      by (cases "uid = ''__proto__''") (simp_all add: f)
  next
    case (Some u)
    then have "(uid, u) \<in> set (upgrades s)" by (rule map_of_SomeD)
    with levels have "0 \<le> level u" by auto
    then have "u\<lparr>level := max 0 (level u)\<rparr> = u" by (simp add: max_def)
    with Some e(3) [of uid] show ?thesis
      by (cases "uid = ''__proto__''") (simp_all add: f)
  qed
  then show "map_of (upgrades (snd (load key now' (save key cs now s)))) = map_of (upgrades s)"
    unfolding s'_def by (rule ext)
  have "map_of (achievements (snd (load key now' s'))) aid = map_of (achievements s) aid" for aid
    using e(4) [of aid]
    by (cases "map_of (achievements s) aid"; cases "aid = ''__proto__''") (simp_all add: f)
  then show "map_of (achievements (snd (load key now' (save key cs now s)))) = map_of (achievements s)"
    unfolding s'_def by (rule ext)
  show "getCurrentId (snd (load key now' (save key cs now s))) = getCurrentId s"
  proof (cases "getCurrent s")
    case None
    then have "gs_currentParadigm (fst (snapshot cs now s)) = ''default''"
      by (simp add: snapshot_fields)
    with None no_default e(5) show ?thesis
      by (simp add: getCurrentId_def isAvailable_def f s'_def [symmetric])
  next
    case (Some p)
    then have "gs_currentParadigm (fst (snapshot cs now s)) = p_id p"
      by (simp add: snapshot_fields)
    moreover from Some have "map_of (paradigms s) (p_id p) = Some p"
      using getCurrent_keyed(1) [OF keyed Some] by (simp add: getCurrent_def split: if_splits)
    ultimately show ?thesis
      using getCurrent_keyed [OF keyed Some] e(5)
      by (simp add: getCurrentId_def isAvailable_def f s'_def [symmetric])
  qed
qed


lemma engine_negative_level_fields:
  "currencies engine_negative_level = [(''gold'', gold)]"
  "upgrades engine_negative_level = [(''click-power'', click_power\<lparr>level := - 1\<rparr>)]"
  "paradigms engine_negative_level = []"
  "currentParadigm engine_negative_level = None"
  "achievements engine_negative_level = []"
  by (simp_all add: engine_negative_level_def addUpgrade_def emit_def engine_gold_fields
        engine_gold_def addCurrency_def new_engine_def click_power_def gold_def)

lemma engine_default_fields:
  "currencies engine_default = [(''gold'', gold)]"
  "upgrades engine_default = []"
  "paradigms engine_default = [(''default'', default_paradigm)]"
  "currentParadigm engine_default = None"
  "achievements engine_default = []"
  by (simp_all add: engine_default_def addParadigm_def Let_def engine_gold_fields
        engine_gold_other_fields default_paradigm_def)

lemma engine_prestige_idle_fields:
  "currencies engine_prestige_idle = [(''gold'', gold)]"
  "upgrades engine_prestige_idle = []"
  "paradigms engine_prestige_idle = [(''prestige'', prestige)]"
  "currentParadigm engine_prestige_idle = None"
  "achievements engine_prestige_idle = []"
  by (simp_all add: engine_prestige_idle_def addParadigm_def Let_def engine_gold_fields
        engine_gold_other_fields prestige_def)

lemma engine_prestige_switched_fields:
  "currencies engine_prestige_switched = [(''gold'', gold)]"
  "upgrades engine_prestige_switched = []"
  "paradigms engine_prestige_switched = [(''prestige'', prestige\<lparr>active := True\<rparr>)]"
  "currentParadigm engine_prestige_switched = Some ''prestige''"
  "map_of (storage engine_prestige_switched) ''game-state'' =
     Some (fst (snapshot None 1 engine_prestige_idle))"
proof -
  define e where "e = save ''game-state'' None 1 engine_prestige_idle"
  have e: "currencies e = [(''gold'', gold)]" "upgrades e = []"
    "paradigms e = [(''prestige'', prestige)]" "currentParadigm e = None"
    "map_of (storage e) ''game-state'' = Some (fst (snapshot None 1 engine_prestige_idle))"
    by (simp_all add: e_def save_fields save_stores engine_prestige_idle_fields)
  have sw: "snd (switchTo ''prestige'' e) =
              e\<lparr>paradigms := [(''prestige'', prestige\<lparr>active := True\<rparr>)],
                currentParadigm := Some ''prestige'',
                events := events e @ [PARADIGM_CHANGED ''prestige'' ''Prestige Mode'' 1.5]\<rparr>"
    by (simp add: switchTo_def truthy_def emit_def Let_def e prestige_def)
  show "currencies engine_prestige_switched = [(''gold'', gold)]"
    "upgrades engine_prestige_switched = []"
    "paradigms engine_prestige_switched = [(''prestige'', prestige\<lparr>active := True\<rparr>)]"
    "currentParadigm engine_prestige_switched = Some ''prestige''"
    "map_of (storage engine_prestige_switched) ''game-state'' =
       Some (fst (snapshot None 1 engine_prestige_idle))"
    unfolding engine_prestige_switched_def e_def [symmetric] sw
    by (simp_all add: e)
qed

lemma engine_proto_fields:
  "currencies engine_proto = [(''__proto__'', proto_currency)]"
  "upgrades engine_proto = []"
  "paradigms engine_proto = []"
  "currentParadigm engine_proto = None"
  "achievements engine_proto = []"
proof -
  have i: "c_id proto_currency = ''__proto__''"
    by (simp add: proto_currency_def)
  show "currencies engine_proto = [(''__proto__'', proto_currency)]"
    "upgrades engine_proto = []"
    "paradigms engine_proto = []"
    "currentParadigm engine_proto = None"
    "achievements engine_proto = []"
    by (simp_all add: engine_proto_def addCurrency_def new_engine_def emit_def i)
qed

lemma engine_proto_later_fields:
  "currencies engine_proto_later = [(''__proto__'', proto_currency\<lparr>amount := 8\<rparr>)]"
  "upgrades engine_proto_later = []"
  "paradigms engine_proto_later = []"
  "currentParadigm engine_proto_later = None"
  "map_of (storage engine_proto_later) ''game-state'' = Some (fst (snapshot None 1 engine_proto))"
proof -
  define e where "e = save ''game-state'' None 1 engine_proto"
  have e: "currencies e = [(''__proto__'', proto_currency)]" "upgrades e = []"
    "paradigms e = []" "currentParadigm e = None"
    "map_of (storage e) ''game-state'' = Some (fst (snapshot None 1 engine_proto))"
    by (simp_all add: e_def save_fields save_stores engine_proto_fields)
  have a: "amount proto_currency + 3 = 8"
    by (simp add: proto_currency_def)
  have ad: "snd (add ''__proto__'' 3 e) =
              e\<lparr>currencies := [(''__proto__'', proto_currency\<lparr>amount := 8\<rparr>)],
                events := events e @ [CURRENCY_CHANGED ''__proto__'' 5 8 3]\<rparr>"
    by (simp add: add_def emit_def Let_def e a) (simp add: proto_currency_def)
  show "currencies engine_proto_later = [(''__proto__'', proto_currency\<lparr>amount := 8\<rparr>)]"
    "upgrades engine_proto_later = []"
    "paradigms engine_proto_later = []"
    "currentParadigm engine_proto_later = None"
    "map_of (storage engine_proto_later) ''game-state'' = Some (fst (snapshot None 1 engine_proto))"
    unfolding engine_proto_later_def e_def [symmetric] ad
    by (simp_all add: e)
qed

text \<open>
  Claim C4, as stated: for every engine state with all currency amounts non-negative,
  saving a snapshot and loading it back restores every currency amount, every upgrade
  level, the active paradigm id and every achievement's state to the values of snapshot
  time. Five engines, in each of which every currency amount is at least 0, where it does
  not:

  \<^item> \<open>addUpgrade\<close> stores the level it is given and \<open>setLevel\<close>, which \<open>load\<close> calls,
    stores \<open>Math.max(0, level)\<close>: an upgrade registered at level \<open>-1\<close> is at level 0
    after a save followed at once by a load.

  \<^item> With no current paradigm \<open>snapshot\<close> writes the id \<open>default\<close>, and \<open>load\<close>
    switches to a paradigm registered under that id: after a save followed at once by a
    load the current paradigm id is \<open>default\<close>, where there was none.

  \<^item> With no current paradigm at snapshot time and a switch to \<open>prestige\<close> after the
    save, \<open>load\<close> leaves \<open>prestige\<close> current.

  \<^item> The snapshot has no entry for a currency registered under \<open>__proto__\<close>: its amount
    is 5 at snapshot time and 8 after 3 more, and \<open>load\<close> leaves it at 8.

  \<^item> After \<open>CurrencyManager.clear\<close> the currency of the snapshot is not registered:
    \<open>set\<close> throws, \<open>load\<close> catches it and returns \<open>null\<close>, and the amount that
    \<open>get\<close> returns is 0, where it was 150.
\<close>

theorem save_load_not_restored:
  "get ''gold'' engine_negative_level = 0 \<and>
   map_option level (map_of (upgrades engine_negative_level) ''click-power'') = Some (- 1) \<and>
   fst (load ''game-state'' 2 (save ''game-state'' None 1 engine_negative_level)) =
     Some (fst (snapshot None 1 engine_negative_level)) \<and>
   map_option level
     (map_of (upgrades (snd (load ''game-state'' 2 (save ''game-state'' None 1 engine_negative_level))))
        ''click-power'') = Some 0 \<and>
   get ''gold'' engine_default = 0 \<and>
   getCurrentId engine_default = None \<and>
   fst (load ''game-state'' 2 (save ''game-state'' None 1 engine_default)) =
     Some (fst (snapshot None 1 engine_default)) \<and>
   getCurrentId (snd (load ''game-state'' 2 (save ''game-state'' None 1 engine_default))) =
     Some ''default'' \<and>
   get ''gold'' engine_prestige_idle = 0 \<and>
   getCurrentId engine_prestige_idle = None \<and>
   fst (load ''game-state'' 2 engine_prestige_switched) =
     Some (fst (snapshot None 1 engine_prestige_idle)) \<and>
   getCurrentId (snd (load ''game-state'' 2 engine_prestige_switched)) = Some ''prestige'' \<and>
   get ''__proto__'' engine_proto = 5 \<and>
   fst (load ''game-state'' 2 engine_proto_later) = Some (fst (snapshot None 1 engine_proto)) \<and>
   get ''__proto__'' (snd (load ''game-state'' 2 engine_proto_later)) = 8 \<and>
   get ''gold'' (shop 150) = 150 \<and>
   fst (load ''game-state'' 2 engine_cleared) = None \<and>
   get ''gold'' (snd (load ''game-state'' 2 engine_cleared)) = 0"
proof -
  \<comment> \<open>the level below 0\<close>
  define n where "n = save ''game-state'' None 1 engine_negative_level"
  have n: "currencies n = [(''gold'', gold)]"
    "upgrades n = [(''click-power'', click_power\<lparr>level := - 1\<rparr>)]"
    "map_of (storage n) ''game-state'' = Some (fst (snapshot None 1 engine_negative_level))"
    by (simp_all add: n_def save_fields save_stores engine_negative_level_fields)
  have "distinct (map fst (currencies engine_negative_level))"
    "distinct (map fst (upgrades engine_negative_level))"
    "distinct (map fst (achievements engine_negative_level))"
    "map_of (storage n) ''game-state'' = Some (fst (snapshot None 1 engine_negative_level))"
    "\<forall>cid\<in>fst ` set (currencies engine_negative_level) - {''__proto__''}.
        map_of (currencies n) cid \<noteq> None"
    "\<forall>uid\<in>fst ` set (upgrades engine_negative_level) - {''__proto__''}.
        map_of (upgrades n) uid \<noteq> None"
    by (simp_all add: n engine_negative_level_fields)
  note en = load_effect [OF this, of 2]
  have a0: "get ''gold'' engine_negative_level = 0"
    "map_option level (map_of (upgrades engine_negative_level) ''click-power'') = Some (- 1)"
    by (simp_all add: get_def engine_negative_level_fields gold_def click_power_def)
  have a1: "map_option level (map_of (upgrades (snd (load ''game-state'' 2 n))) ''click-power'') =
              Some 0"
    using en(3) [of "''click-power''"] by (simp add: n engine_negative_level_fields)
  \<comment> \<open>the paradigm registered under \<open>default\<close>\<close>
  define d where "d = save ''game-state'' None 1 engine_default"
  have d: "currencies d = [(''gold'', gold)]" "upgrades d = []"
    "paradigms d = [(''default'', default_paradigm)]" "currentParadigm d = None"
    "map_of (storage d) ''game-state'' = Some (fst (snapshot None 1 engine_default))"
    by (simp_all add: d_def save_fields save_stores engine_default_fields)
  have "distinct (map fst (currencies engine_default))"
    "distinct (map fst (upgrades engine_default))"
    "distinct (map fst (achievements engine_default))"
    "map_of (storage d) ''game-state'' = Some (fst (snapshot None 1 engine_default))"
    "\<forall>cid\<in>fst ` set (currencies engine_default) - {''__proto__''}. map_of (currencies d) cid \<noteq> None"
    "\<forall>uid\<in>fst ` set (upgrades engine_default) - {''__proto__''}. map_of (upgrades d) uid \<noteq> None"
    by (simp_all add: d engine_default_fields)
  note ed = load_effect [OF this, of 2]
  have b0: "get ''gold'' engine_default = 0" "getCurrentId engine_default = None"
    by (simp_all add: get_def getCurrentId_def engine_default_fields gold_def)
  have "gs_currentParadigm (fst (snapshot None 1 engine_default)) = ''default''"
    by (simp add: snapshot_fields getCurrent_def truthy_def engine_default_fields)
  with ed(5) have b1: "getCurrentId (snd (load ''game-state'' 2 d)) = Some ''default''"
    by (simp add: getCurrentId_def isAvailable_def d)
  \<comment> \<open>the switch after the save\<close>
  have "distinct (map fst (currencies engine_prestige_idle))"
    "distinct (map fst (upgrades engine_prestige_idle))"
    "distinct (map fst (achievements engine_prestige_idle))"
    "map_of (storage engine_prestige_switched) ''game-state'' =
       Some (fst (snapshot None 1 engine_prestige_idle))"
    "\<forall>cid\<in>fst ` set (currencies engine_prestige_idle) - {''__proto__''}.
        map_of (currencies engine_prestige_switched) cid \<noteq> None"
    "\<forall>uid\<in>fst ` set (upgrades engine_prestige_idle) - {''__proto__''}.
        map_of (upgrades engine_prestige_switched) uid \<noteq> None"
    by (simp_all add: engine_prestige_idle_fields engine_prestige_switched_fields)
  note es = load_effect [OF this, of 2]
  have c0: "get ''gold'' engine_prestige_idle = 0" "getCurrentId engine_prestige_idle = None"
    by (simp_all add: get_def getCurrentId_def engine_prestige_idle_fields gold_def)
  have "gs_currentParadigm (fst (snapshot None 1 engine_prestige_idle)) = ''default''"
    by (simp add: snapshot_fields getCurrent_def truthy_def engine_prestige_idle_fields)
  with es(5) have c1: "getCurrentId (snd (load ''game-state'' 2 engine_prestige_switched)) =
      Some ''prestige''"
    by (simp add: getCurrentId_def isAvailable_def engine_prestige_switched_fields)
  \<comment> \<open>the currency under \<open>__proto__\<close>\<close>
  have "distinct (map fst (currencies engine_proto))"
    "distinct (map fst (upgrades engine_proto))"
    "distinct (map fst (achievements engine_proto))"
    "map_of (storage engine_proto_later) ''game-state'' = Some (fst (snapshot None 1 engine_proto))"
    "\<forall>cid\<in>fst ` set (currencies engine_proto) - {''__proto__''}.
        map_of (currencies engine_proto_later) cid \<noteq> None"
    "\<forall>uid\<in>fst ` set (upgrades engine_proto) - {''__proto__''}.
        map_of (upgrades engine_proto_later) uid \<noteq> None"
    by (simp_all add: engine_proto_fields engine_proto_later_fields)
  note ep = load_effect [OF this, of 2]
  have d0: "get ''__proto__'' engine_proto = 5"
    by (simp add: get_def engine_proto_fields proto_currency_def)
  have d1: "get ''__proto__'' (snd (load ''game-state'' 2 engine_proto_later)) = 8"
    using ep(2) [of "''__proto__''"] by (simp add: get_def engine_proto_later_fields)
  \<comment> \<open>the currency removed after the save\<close>
  have k: "currencies engine_cleared = []"
    "map_of (storage engine_cleared) ''game-state'' = Some (fst (snapshot None 1 (shop 150)))"
    by (simp_all add: engine_cleared_def currency_clear_def save_stores)
  have "gs_currencies (fst (snapshot None 1 (shop 150))) = [(''gold'', 150)]"
    by (simp add: snapshot_fields getAllAsRecord_distinct shop_fields)
  then have "load ''game-state'' 2 engine_cleared = (None, engine_cleared)"
    by (simp add: load_def k set_amount_def)
  then have e1: "fst (load ''game-state'' 2 engine_cleared) = None"
    "get ''gold'' (snd (load ''game-state'' 2 engine_cleared)) = 0"
    by (simp_all add: get_def k)
  have e0: "get ''gold'' (shop 150) = 150"
    by (simp add: get_def shop_fields)
  from a0 a1 en(1) b0 b1 ed(1) c0 c1 es(1) d0 d1 ep(1) e0 e1 show ?thesis
    unfolding n_def d_def by simp
qed


end
